theory Spec2Isabelle
  imports
    Complex_Main
    "HOL-Library.Char_ord"
    "HOL-Library.List_Lexorder"
    "HOL-Library.Multiset"
    "HOL-Library.Word"
begin

section \<open>Go values, maps and strings\<close>

text \<open>
  A Go string is a sequence of bytes, so it is a \<^typ>\<open>string\<close> here (a list of 8-bit
  characters); Go compares strings bytewise, which is the lexicographic order of
  \<^typ>\<open>char list\<close> over the byte order of \<^typ>\<open>char\<close>.

  An \<^verbatim>\<open>interface{}\<close> tag value is one of the dynamic types a decoded JSON document
  yields; \<open>GoOther\<close> stands for any other dynamic type (slices, maps, channels, ...).
\<close>

datatype go_value = GoNil | GoBool bool | GoFloat64 rat | GoString string | GoOther nat

text \<open>
  A Go map is \<open>None\<close> when it is nil, and otherwise the list of its entries in the order
  in which this run of the program iterates over it (Go leaves that order unspecified;
  the keys of a map are distinct).
\<close>

type_synonym 'v go_map = "(string \<times> 'v) list option"

definition len_map :: "'v go_map \<Rightarrow> nat" where
  "len_map m = (case m of None \<Rightarrow> 0 | Some es \<Rightarrow> length es)"

definition range_map :: "'v go_map \<Rightarrow> (string \<times> 'v) list" where
  "range_map m = (case m of None \<Rightarrow> [] | Some es \<Rightarrow> es)"

text \<open>\<^verbatim>\<open>strings.Join\<close>.\<close>

fun Join :: "string list \<Rightarrow> string \<Rightarrow> string" where
  "Join [] sep = []"
| "Join [x] sep = x"
| "Join (x # y # ys) sep = x @ sep @ Join (y # ys) sep"

text \<open>
  \<^verbatim>\<open>strings.EqualFold\<close>. The byte loop of the library is modelled as it is written for
  ASCII bytes. When a byte of either string is not ASCII the library decodes runes and
  consults the Unicode fold orbits; the program calls it only with the second argument
  \<^verbatim>\<open>"CreatedBy"\<close>, whose letters have fold orbits inside ASCII, so a rune outside ASCII
  never matches and the comparison is false.
\<close>

fun EqualFold :: "string \<Rightarrow> string \<Rightarrow> bool" where
  "EqualFold (sr # s) (tr # t) =
     (if (128::nat) \<le> of_char sr \<or> (128::nat) \<le> of_char tr then False
      else if tr = sr then EqualFold s t
      else (let lo = min (of_char sr) (of_char tr) :: nat;
                hi = max (of_char sr) (of_char tr) :: nat
            in if 65 \<le> lo \<and> lo \<le> 90 \<and> hi = lo + 97 - 65 then EqualFold s t else False))"
| "EqualFold [] t = (t = [])"
| "EqualFold s [] = (s = [])"

section \<open>Tag serialisation and classification\<close>

text \<open>
  \<^verbatim>\<open>encoding/json\<close> is a library: the encodings of a string (with its escapes) and of a
  tag value are parameters. What the model fixes is what \<^verbatim>\<open>json.Marshal\<close> does with a
  map: a nil map is \<^verbatim>\<open>null\<close>, another map is an object whose members come in the order
  of their keys, and an error in any member is an error of the whole.
\<close>

record json_encoder =
  encodeString :: "string \<Rightarrow> string"
  encodeValue :: "go_value \<Rightarrow> string option"

definition encode_map :: "json_encoder \<Rightarrow> ('v \<Rightarrow> string option) \<Rightarrow> 'v go_map \<Rightarrow> string option" where
  "encode_map lib enc m =
     (case m of
        None \<Rightarrow> Some ''null''
      | Some es \<Rightarrow>
          (let members = map (\<lambda>(k, v). map_option (\<lambda>s. encodeString lib k @ '':'' @ s) (enc v))
                             (sort_key fst es)
           in if None \<in> set members then None
              else Some (''{'' @ Join (map the members) '','' @ ''}'')))"

definition json_Marshal :: "json_encoder \<Rightarrow> (string \<times> go_value) list option go_map \<Rightarrow> string option" where
  "json_Marshal lib dt = encode_map lib (encode_map lib (encodeValue lib)) dt"

definition DefinedTagsToString :: "json_encoder \<Rightarrow> (string \<times> go_value) list option go_map \<Rightarrow> string" where
  "DefinedTagsToString lib dt = (case json_Marshal lib dt of None \<Rightarrow> [] | Some bytes \<Rightarrow> bytes)"

definition FreeformTagsToString :: "string go_map \<Rightarrow> string" where
  "FreeformTagsToString tags =
     (if len_map tags = 0 then []
      else Join (sort (map (\<lambda>(k, v). k @ ''='' @ v) (range_map tags))) '', '')"

text \<open>The two loops of \<^verbatim>\<open>hasCreatedByTag\<close>: the first hit returns true.\<close>

fun namespace_loop :: "(string \<times> go_value) list \<Rightarrow> bool" where
  "namespace_loop [] = False"
| "namespace_loop ((key, val) # rest) =
     (if EqualFold key ''CreatedBy'' \<and> (case val of GoString strVal \<Rightarrow> strVal \<noteq> [] | _ \<Rightarrow> False)
      then True
      else namespace_loop rest)"

fun definedTags_loop :: "(string \<times> (string \<times> go_value) list option) list \<Rightarrow> bool" where
  "definedTags_loop [] = False"
| "definedTags_loop ((ns, namespace) # rest) =
     (if namespace_loop (range_map namespace) then True else definedTags_loop rest)"

definition hasCreatedByTag :: "(string \<times> go_value) list option go_map \<Rightarrow> bool" where
  "hasCreatedByTag definedTags =
     (if len_map definedTags = 0 then False else definedTags_loop (range_map definedTags))"

text \<open>The two conditions of the record loop (lines 287 and 296 of main.go).\<close>

definition missingDefinedTags :: "(string \<times> go_value) list option go_map \<Rightarrow> bool" where
  "missingDefinedTags definedTags = (len_map definedTags = 0)"

definition missingOwner :: "(string \<times> go_value) list option go_map \<Rightarrow> bool" where
  "missingOwner definedTags = (len_map definedTags = 0 \<or> \<not> hasCreatedByTag definedTags)"

text \<open>The reading of the specification: equality of keys up to the case of ASCII letters.\<close>

definition ascii_lower :: "char \<Rightarrow> char" where
  "ascii_lower c = (if (65::nat) \<le> of_char c \<and> of_char c \<le> (90::nat) then char_of (of_char c + 32 :: nat) else c)"

definition case_insensitive_eq :: "string \<Rightarrow> string \<Rightarrow> bool" where
  "case_insensitive_eq a b = (map ascii_lower a = map ascii_lower b)"

section \<open>Time\<close>

text \<open>
  A \<^verbatim>\<open>time.Time\<close> is an instant: nanoseconds since the Unix epoch (the location of a
  \<^verbatim>\<open>Time\<close> plays no part, every use converts to UTC). A \<^verbatim>\<open>time.Duration\<close> is an
  \<^verbatim>\<open>int64\<close> of nanoseconds; \<^verbatim>\<open>Time.Sub\<close> saturates at its two ends.
\<close>

type_synonym go_time = int

definition minDuration :: int where
  "minDuration = - (2 ^ 63)"

definition maxDuration :: int where
  "maxDuration = 2 ^ 63 - 1"

definition Sub :: "go_time \<Rightarrow> go_time \<Rightarrow> int" where
  "Sub t u = (if t - u < minDuration then minDuration
              else if maxDuration < t - u then maxDuration
              else t - u)"

text \<open>\<^verbatim>\<open>time.Since(t)\<close> is \<^verbatim>\<open>time.Now().Sub(t)\<close> for a \<open>t\<close> without a monotonic clock
  reading, as every decoded \<^verbatim>\<open>SDKTime\<close> is; \<open>now\<close> is the reading of the clock.\<close>

definition Since :: "go_time \<Rightarrow> go_time \<Rightarrow> int" where
  "Since now t = Sub now t"

text \<open>Go's integer \<^verbatim>\<open>/\<close> and \<^verbatim>\<open>%\<close> truncate toward zero.\<close>

definition go_quot :: "int \<Rightarrow> int \<Rightarrow> int" where
  "go_quot a b = sgn a * sgn b * (\<bar>a\<bar> div \<bar>b\<bar>)"

definition go_rem :: "int \<Rightarrow> int \<Rightarrow> int" where
  "go_rem a b = a - b * go_quot a b"

text \<open>
  A finite \<^verbatim>\<open>float64\<close> is the rational it denotes. \<open>f64\<close> rounds a rational to the
  nearest \<^verbatim>\<open>float64\<close>, ties to even: 53 bits of significand, exponents from \<open>-1022\<close>
  (below it the spacing stays that of the subnormals). Overflow to an infinity is not
  modelled: every operand here is below \<open>2 ^ 64\<close> in magnitude.
\<close>

definition round_half_even :: "rat \<Rightarrow> int" where
  "round_half_even x =
     (let f = \<lfloor>x\<rfloor>; d = x - of_int f
      in if d < 1 / 2 then f else if 1 / 2 < d then f + 1 else if even f then f else f + 1)"

function bit_length :: "int \<Rightarrow> nat" where
  "bit_length a = (if a \<le> 0 then 0 else Suc (bit_length (a div 2)))"
  by pat_completeness auto
termination
  by (relation "measure nat") auto

definition floor_log2 :: "rat \<Rightarrow> int" where
  "floor_log2 x =
     (let (a, b) = quotient_of x;
          k = int (bit_length a) - int (bit_length b)
      in if power_int 2 k \<le> x then k else k - 1)"

definition f64 :: "rat \<Rightarrow> rat" where
  "f64 x =
     (if x = 0 then 0
      else (let e = max (floor_log2 \<bar>x\<bar>) (- 1022); u = power_int 2 (e - 52)
            in of_int (round_half_even (x / u)) * u))"

text \<open>The conversion \<^verbatim>\<open>int(x)\<close> of a \<^verbatim>\<open>float64\<close> drops the fraction (toward zero).\<close>

definition float64_to_int :: "rat \<Rightarrow> int" where
  "float64_to_int x = (if 0 \<le> x then \<lfloor>x\<rfloor> else \<lceil>x\<rceil>)"

definition Hour :: int where
  "Hour = 3600000000000"

text \<open>\<^verbatim>\<open>Duration.Hours\<close>: \<^verbatim>\<open>float64(d / Hour) + float64(d % Hour) / (60 * 60 * 1e9)\<close>.\<close>

definition Hours :: "int \<Rightarrow> rat" where
  "Hours d = f64 (f64 (of_int (go_quot d Hour)) + f64 (f64 (of_int (go_rem d Hour)) / 3600000000000))"

text \<open>Decimal digits; \<^verbatim>\<open>fmt.Sprintf("%d", x)\<close>; the zero-padded fields of \<^verbatim>\<open>Time.Format\<close>.\<close>

fun digits :: "nat \<Rightarrow> string" where
  "digits n = (if n < 10 then [char_of (48 + n)] else digits (n div 10) @ [char_of (48 + n mod 10)])"

declare digits.simps [simp del]

definition Sprintf_d :: "int \<Rightarrow> string" where
  "Sprintf_d x = (if x < 0 then ''-'' else []) @ digits (nat \<bar>x\<bar>)"

definition appendInt :: "int \<Rightarrow> nat \<Rightarrow> string" where
  "appendInt x width =
     (let ds = digits (nat \<bar>x\<bar>)
      in (if x < 0 then ''-'' else []) @ replicate (width - length ds) (CHR ''0'') @ ds)"

text \<open>
  The calendar date of a day number (days since 1970-01-01) in the proleptic Gregorian
  calendar, as \<^verbatim>\<open>Time.Date\<close> computes it: year, month and day.
\<close>

definition civil_from_days :: "int \<Rightarrow> int \<times> int \<times> int" where
  "civil_from_days z0 =
     (let z = z0 + 719468;
          era = z div 146097;
          doe = z - era * 146097;
          yoe = (doe - doe div 1460 + doe div 36524 - doe div 146096) div 365;
          y = yoe + era * 400;
          doy = doe - (365 * yoe + yoe div 4 - yoe div 100);
          mp = (5 * doy + 2) div 153;
          d = doy - (153 * mp + 2) div 5 + 1;
          m = (if mp < 10 then mp + 3 else mp - 9)
      in (if m \<le> 2 then y + 1 else y, m, d))"

text \<open>\<^verbatim>\<open>t.UTC().Format(layout)\<close> for the two layouts of the program:
  \<^verbatim>\<open>"20060102_150405"\<close> when \<open>short\<close>, \<^verbatim>\<open>"2006-01-02 15:04:05"\<close> otherwise.\<close>

definition Format :: "bool \<Rightarrow> go_time \<Rightarrow> string" where
  "Format short t =
     (let secs = t div 1000000000;
          (y, m, d) = civil_from_days (secs div 86400);
          sod = secs mod 86400;
          date_sep = (if short then [] else ''-'');
          mid_sep = (if short then ''_'' else '' '');
          time_sep = (if short then [] else '':'')
      in appendInt y 4 @ date_sep @ appendInt m 2 @ date_sep @ appendInt d 2 @ mid_sep @
         appendInt (sod div 3600) 2 @ time_sep @ appendInt (sod mod 3600 div 60) 2 @ time_sep @
         appendInt (sod mod 60) 2)"

text \<open>\<^verbatim>\<open>formatTimeCreated\<close>; \<open>now\<close> is what the clock reads inside \<^verbatim>\<open>time.Since\<close>.\<close>

definition formatTimeCreated :: "go_time \<Rightarrow> go_time option \<Rightarrow> string \<times> string" where
  "formatTimeCreated now sdkTime =
     (case sdkTime of
        None \<Rightarrow> (''N/A'', ''N/A'')
      | Some createdTime \<Rightarrow>
          (let formattedTime = Format False createdTime;
               days = float64_to_int (f64 (Hours (Since now createdTime) / 24))
           in (formattedTime, Sprintf_d days)))"

section \<open>The region task\<close>

text \<open>A \<^verbatim>\<open>ResourceSummary\<close> of the search API: a nil pointer is \<open>None\<close>.\<close>

record resource =
  DisplayName :: "string option"
  ResourceType :: "string option"
  Identifier :: "string option"
  CompartmentId :: "string option"
  LifecycleState :: "string option"
  AvailabilityDomain :: "string option"
  TimeCreated :: "go_time option"
  DefinedTags :: "(string \<times> go_value) list option go_map"
  FreeformTags :: "string go_map"

record search_response =
  Items :: "resource list"
  OpcNextPage :: "string option"

definition getStringValue :: "string option \<Rightarrow> string" where
  "getStringValue ptr = (case ptr of None \<Rightarrow> [] | Some s \<Rightarrow> s)"

datatype sink_kind = Resources | MissingTags | NoOwner

text \<open>
  What the task cannot decide is given by its world: the readings of the clock (the
  \<open>k\<close>-th call of \<^verbatim>\<open>time.Now\<close> by this task), whether the credentials, the client, the
  directory and each file can be made, whether the \<open>n\<close>-th \<^verbatim>\<open>Write\<close> on a sink succeeds
  (the header is write \<open>0\<close>), and the answer of the \<open>k\<close>-th \<^verbatim>\<open>SearchResources\<close> call to
  a request with a given page cursor (\<open>None\<close> is an error).
\<close>

record world =
  clock :: "nat \<Rightarrow> go_time"
  providerOk :: bool
  clientOk :: bool
  mkdirOk :: bool
  createOk :: "sink_kind \<Rightarrow> bool"
  writeOk :: "sink_kind \<Rightarrow> nat \<Rightarrow> bool"
  SearchResources :: "nat \<Rightarrow> string option \<Rightarrow> search_response option"

text \<open>The two package variables set from the command line.\<close>

record flags =
  createMissingTagsFile :: bool
  createNoOwnerFile :: bool

datatype log_msg =
    ErrProvider | ErrClient | ErrMkdir
  | ErrCreate sink_kind | ErrHeader sink_kind | ErrWrite sink_kind
  | ErrSearch
  | Processed "64 word" | FoundMissingTags "64 word" | FoundNoOwner "64 word"

datatype event =
    Log log_msg
  | Request "string option"
  | Sleep nat
  | Flush sink_kind
  | Close sink_kind

text \<open>
  A sink: the rows its \<^verbatim>\<open>csv.Writer\<close> accepted, and how many writes were asked of it.
  A task has its three sinks (an optional sink it did not open is \<open>None\<close>), the paths of
  the files it has made, in the order of their making, its counters, the numbers of
  clock readings and of search requests so far, the deferred calls (the last registered
  first) and the trace of what it has logged, requested and slept.
\<close>

record sink =
  rows :: "string list list"
  writes :: nat

record task =
  created :: "string list"
  mainWriter :: sink
  missingTagsWriter :: "sink option"
  noOwnerWriter :: "sink option"
  totalResources :: "64 word"
  missingTagsCount :: "64 word"
  noOwnerCount :: "64 word"
  ticks :: nat
  calls :: nat
  defers :: "event list"
  trace :: "event list"

definition new_sink :: sink where
  "new_sink = \<lparr>rows = [], writes = 0\<rparr>"

definition Write :: "world \<Rightarrow> sink_kind \<Rightarrow> sink \<Rightarrow> string list \<Rightarrow> bool \<times> sink" where
  "Write w k s row =
     (if writeOk w k (writes s)
      then (True, s\<lparr>rows := rows s @ [row], writes := Suc (writes s)\<rparr>)
      else (False, s\<lparr>writes := Suc (writes s)\<rparr>))"

definition log_Printf :: "log_msg \<Rightarrow> task \<Rightarrow> task" where
  "log_Printf m st = st\<lparr>trace := trace st @ [Log m]\<rparr>"

text \<open>A \<^verbatim>\<open>return\<close>: the deferred flushes and closes run, last registered first.\<close>

definition return :: "task \<Rightarrow> task" where
  "return st = st\<lparr>trace := trace st @ defers st, defers := []\<rparr>"

definition defer_close_flush :: "sink_kind \<Rightarrow> task \<Rightarrow> task" where
  "defer_close_flush k st = st\<lparr>defers := Flush k # Close k # defers st\<rparr>"

definition file_kind :: "sink_kind \<Rightarrow> string" where
  "file_kind k = (case k of Resources \<Rightarrow> ''resources'' | MissingTags \<Rightarrow> ''missing_tags'' | NoOwner \<Rightarrow> ''no_owner'')"

definition file_path :: "string \<Rightarrow> sink_kind \<Rightarrow> string \<Rightarrow> string" where
  "file_path section k timestamp = ''data/'' @ section @ ''_'' @ file_kind k @ ''_'' @ timestamp @ ''.csv''"

definition headers :: "string list" where
  "headers =
     [''Region'', ''Display Name'', ''Resource Type'', ''Identifier'', ''Compartment ID'',
      ''Lifecycle State'', ''Time Created (UTC)'', ''Days Since Creation'',
      ''Availability Domain'', ''Defined Tags'', ''Freeform Tags'']"

text \<open>The row of a record (lines 265 to 278). The clock is read by \<^verbatim>\<open>time.Since\<close>, so
  only for a record with a creation time.\<close>

definition make_row :: "json_encoder \<Rightarrow> string \<Rightarrow> go_time \<Rightarrow> resource \<Rightarrow> string list" where
  "make_row lib section now r =
     (let (formattedTime, daysSinceCreation) = formatTimeCreated now (TimeCreated r)
      in [section,
          getStringValue (DisplayName r),
          getStringValue (ResourceType r),
          getStringValue (Identifier r),
          getStringValue (CompartmentId r),
          getStringValue (LifecycleState r),
          formattedTime,
          daysSinceCreation,
          getStringValue (AvailabilityDomain r),
          DefinedTagsToString lib (DefinedTags r),
          FreeformTagsToString (FreeformTags r)])"

text \<open>The two optional writes of the loop body (lines 287 to 302).\<close>

definition write_missing_tags :: "world \<Rightarrow> flags \<Rightarrow> resource \<Rightarrow> string list \<Rightarrow> task \<Rightarrow> task" where
  "write_missing_tags w fl r row st =
     (case missingTagsWriter st of
        Some mt \<Rightarrow>
          (if createMissingTagsFile fl \<and> missingDefinedTags (DefinedTags r)
           then (case Write w MissingTags mt row of
                   (True, mt') \<Rightarrow> st\<lparr>missingTagsWriter := Some mt', missingTagsCount := missingTagsCount st + 1\<rparr>
                 | (False, mt') \<Rightarrow> log_Printf (ErrWrite MissingTags) (st\<lparr>missingTagsWriter := Some mt'\<rparr>))
           else st)
      | None \<Rightarrow> st)"

definition write_no_owner :: "world \<Rightarrow> flags \<Rightarrow> resource \<Rightarrow> string list \<Rightarrow> task \<Rightarrow> task" where
  "write_no_owner w fl r row st =
     (case noOwnerWriter st of
        Some nw \<Rightarrow>
          (if createNoOwnerFile fl \<and> missingOwner (DefinedTags r)
           then (case Write w NoOwner nw row of
                   (True, nw') \<Rightarrow> st\<lparr>noOwnerWriter := Some nw', noOwnerCount := noOwnerCount st + 1\<rparr>
                 | (False, nw') \<Rightarrow> log_Printf (ErrWrite NoOwner) (st\<lparr>noOwnerWriter := Some nw'\<rparr>))
           else st)
      | None \<Rightarrow> st)"

text \<open>The body of the loop over the items of a page (lines 264 to 305).\<close>

definition process_resource :: "world \<Rightarrow> flags \<Rightarrow> json_encoder \<Rightarrow> string \<Rightarrow> task \<Rightarrow> resource \<Rightarrow> task" where
  "process_resource w fl lib section st r =
     (let row = make_row lib section (clock w (ticks st)) r;
          st1 = (if TimeCreated r = None then st else st\<lparr>ticks := Suc (ticks st)\<rparr>)
      in case Write w Resources (mainWriter st1) row of
           (False, mw) \<Rightarrow> log_Printf (ErrWrite Resources) (st1\<lparr>mainWriter := mw\<rparr>)
         | (True, mw) \<Rightarrow>
             (let st2 = write_missing_tags w fl r row (st1\<lparr>mainWriter := mw\<rparr>);
                  st3 = write_no_owner w fl r row st2
              in st3\<lparr>totalResources := totalResources st3 + 1\<rparr>))"

fun items_loop :: "world \<Rightarrow> flags \<Rightarrow> json_encoder \<Rightarrow> string \<Rightarrow> task \<Rightarrow> resource list \<Rightarrow> task" where
  "items_loop w fl lib section st [] = st"
| "items_loop w fl lib section st (r # rs) =
     items_loop w fl lib section (process_resource w fl lib section st r) rs"

text \<open>The lines after the page loop (314 to 321).\<close>

definition finish :: "flags \<Rightarrow> task \<Rightarrow> task" where
  "finish fl st =
     (let st1 = log_Printf (Processed (totalResources st)) st;
          st2 = (if createMissingTagsFile fl then log_Printf (FoundMissingTags (missingTagsCount st1)) st1 else st1);
          st3 = (if createNoOwnerFile fl then log_Printf (FoundNoOwner (noOwnerCount st2)) st2 else st2)
      in return st3)"

text \<open>
  The page loop (lines 257 to 312). It runs as long as the service hands out cursors, so
  it takes fuel: one unit per request, and \<open>None\<close> when the fuel is used up before the
  loop has ended.
\<close>

fun page_loop :: "nat \<Rightarrow> world \<Rightarrow> flags \<Rightarrow> json_encoder \<Rightarrow> string \<Rightarrow> string option \<Rightarrow> task \<Rightarrow> task option" where
  "page_loop 0 w fl lib section page st = None"
| "page_loop (Suc n) w fl lib section page st =
     (let st1 = st\<lparr>calls := Suc (calls st), trace := trace st @ [Request page]\<rparr>
      in case SearchResources w (calls st) page of
           None \<Rightarrow> Some (return (log_Printf ErrSearch st1))
         | Some response \<Rightarrow>
             (let st2 = items_loop w fl lib section st1 (Items response)
              in case OpcNextPage response of
                   None \<Rightarrow> Some (finish fl st2)
                 | Some c \<Rightarrow> page_loop n w fl lib section (Some c) (st2\<lparr>trace := trace st2 @ [Sleep 200]\<rparr>)))"

definition init_task :: task where
  "init_task =
     \<lparr>created = [], mainWriter = new_sink, missingTagsWriter = None, noOwnerWriter = None,
      totalResources = 0, missingTagsCount = 0, noOwnerCount = 0,
      ticks = 0, calls = 0, defers = [], trace = []\<rparr>"

text \<open>The set-up of the sinks: the files (lines 170 to 207), then the headers (lines 209
  to 241). \<open>Inl\<close> is a \<^verbatim>\<open>return\<close> of the task during the set-up.\<close>

definition create_optional :: "world \<Rightarrow> bool \<Rightarrow> sink_kind \<Rightarrow> string \<Rightarrow> string \<Rightarrow> task \<Rightarrow> task + task" where
  "create_optional w enabled k section timestamp st =
     (if enabled
      then (if createOk w k
            then Inr (defer_close_flush k (st\<lparr>created := created st @ [file_path section k timestamp]\<rparr>))
            else Inl (return (log_Printf (ErrCreate k) st)))
      else Inr st)"

definition create_files :: "world \<Rightarrow> flags \<Rightarrow> string \<Rightarrow> string \<Rightarrow> task \<Rightarrow> task + task" where
  "create_files w fl section timestamp st =
     (if \<not> createOk w Resources then Inl (return (log_Printf (ErrCreate Resources) st))
      else (let st1 = defer_close_flush Resources
                        (st\<lparr>created := created st @ [file_path section Resources timestamp]\<rparr>)
            in case create_optional w (createMissingTagsFile fl) MissingTags section timestamp st1 of
                 Inl st' \<Rightarrow> Inl st'
               | Inr st2 \<Rightarrow>
                   (case create_optional w (createNoOwnerFile fl) NoOwner section timestamp
                           (st2\<lparr>missingTagsWriter := (if createMissingTagsFile fl then Some new_sink else None)\<rparr>) of
                      Inl st' \<Rightarrow> Inl st'
                    | Inr st3 \<Rightarrow>
                        Inr (st3\<lparr>noOwnerWriter := (if createNoOwnerFile fl then Some new_sink else None)\<rparr>))))"

definition write_headers :: "world \<Rightarrow> flags \<Rightarrow> task \<Rightarrow> task + task" where
  "write_headers w fl st =
     (case Write w Resources (mainWriter st) headers of
        (False, mw) \<Rightarrow> Inl (return (log_Printf (ErrHeader Resources) (st\<lparr>mainWriter := mw\<rparr>)))
      | (True, mw) \<Rightarrow>
          (let st1 = st\<lparr>mainWriter := mw\<rparr>;
               r2 = (case missingTagsWriter st1 of
                       Some mt \<Rightarrow>
                         (if createMissingTagsFile fl
                          then (case Write w MissingTags mt headers of
                                  (False, mt') \<Rightarrow> Inl (return (log_Printf (ErrHeader MissingTags) (st1\<lparr>missingTagsWriter := Some mt'\<rparr>)))
                                | (True, mt') \<Rightarrow> Inr (st1\<lparr>missingTagsWriter := Some mt'\<rparr>))
                          else Inr st1)
                     | None \<Rightarrow> Inr st1)
           in case r2 of
                Inl st' \<Rightarrow> Inl st'
              | Inr st2 \<Rightarrow>
                  (case noOwnerWriter st2 of
                     Some nw \<Rightarrow>
                       (if createNoOwnerFile fl
                        then (case Write w NoOwner nw headers of
                                (False, nw') \<Rightarrow> Inl (return (log_Printf (ErrHeader NoOwner) (st2\<lparr>noOwnerWriter := Some nw'\<rparr>)))
                              | (True, nw') \<Rightarrow> Inr (st2\<lparr>noOwnerWriter := Some nw'\<rparr>))
                        else Inr st2)
                   | None \<Rightarrow> Inr st2)))"

text \<open>
  \<^verbatim>\<open>ExecuteFullSearch\<close>. The configuration path and the query go to the client and the
  service, which the world stands for. The first reading of the clock is the time stamp
  of the file names.
\<close>

definition ExecuteFullSearch :: "nat \<Rightarrow> world \<Rightarrow> flags \<Rightarrow> json_encoder \<Rightarrow> string \<Rightarrow> task option" where
  "ExecuteFullSearch fuel w fl lib section =
     (let timestamp = Format True (clock w 0);
          st = init_task\<lparr>ticks := 1\<rparr>
      in if \<not> providerOk w then Some (return (log_Printf ErrProvider st))
         else if \<not> clientOk w then Some (return (log_Printf ErrClient st))
         else if \<not> mkdirOk w then Some (return (log_Printf ErrMkdir st))
         else (case create_files w fl section timestamp st of
                 Inl st' \<Rightarrow> Some st'
               | Inr st1 \<Rightarrow>
                   (case write_headers w fl st1 of
                      Inl st' \<Rightarrow> Some st'
                    | Inr st2 \<Rightarrow> page_loop fuel w fl lib section None st2)))"

text \<open>The rows of the file of a kind: nothing when the task has no such sink.\<close>

definition sink_rows :: "sink_kind \<Rightarrow> task \<Rightarrow> string list list" where
  "sink_rows k st =
     (case k of
        Resources \<Rightarrow> rows (mainWriter st)
      | MissingTags \<Rightarrow> (case missingTagsWriter st of None \<Rightarrow> [] | Some s \<Rightarrow> rows s)
      | NoOwner \<Rightarrow> (case noOwnerWriter st of None \<Rightarrow> [] | Some s \<Rightarrow> rows s))"

text \<open>
  \<^verbatim>\<open>main\<close> starts one task for every section but \<^verbatim>\<open>DEFAULT\<close>; the tasks share nothing,
  and each has a world of its own (it reads the clock itself).
\<close>

definition run_main :: "nat \<Rightarrow> (string \<Rightarrow> world) \<Rightarrow> flags \<Rightarrow> json_encoder \<Rightarrow> string list \<Rightarrow> (string \<times> task option) list" where
  "run_main fuel worlds fl lib sections =
     map (\<lambda>sectionName. (sectionName, ExecuteFullSearch fuel (worlds sectionName) fl lib sectionName))
         (filter (\<lambda>name. name \<noteq> ''DEFAULT'') sections)"

section \<open>The set-up, described\<close>

text \<open>
  The set-up of a task succeeds when the credentials, the client and the directory can
  be made, the main file can be created and takes the header, and so does each
  exception file that the flags ask for. \<open>after_setup\<close> is the state of the task at the
  first request then.
\<close>

definition setup_ok :: "world \<Rightarrow> flags \<Rightarrow> bool" where
  "setup_ok w fl =
     (providerOk w \<and> clientOk w \<and> mkdirOk w \<and> createOk w Resources \<and> writeOk w Resources 0 \<and>
      (\<not> createMissingTagsFile fl \<or> createOk w MissingTags \<and> writeOk w MissingTags 0) \<and>
      (\<not> createNoOwnerFile fl \<or> createOk w NoOwner \<and> writeOk w NoOwner 0))"

definition header_sink :: sink where
  "header_sink = \<lparr>rows = [headers], writes = 1\<rparr>"

definition after_setup :: "flags \<Rightarrow> string \<Rightarrow> string \<Rightarrow> task" where
  "after_setup fl section timestamp =
     \<lparr>created =
        [file_path section Resources timestamp] @
        (if createMissingTagsFile fl then [file_path section MissingTags timestamp] else []) @
        (if createNoOwnerFile fl then [file_path section NoOwner timestamp] else []),
      mainWriter = header_sink,
      missingTagsWriter = (if createMissingTagsFile fl then Some header_sink else None),
      noOwnerWriter = (if createNoOwnerFile fl then Some header_sink else None),
      totalResources = 0, missingTagsCount = 0, noOwnerCount = 0,
      ticks = 1, calls = 0,
      defers =
        (if createNoOwnerFile fl then [Flush NoOwner, Close NoOwner] else []) @
        (if createMissingTagsFile fl then [Flush MissingTags, Close MissingTags] else []) @
        [Flush Resources, Close Resources],
      trace = []\<rparr>"




section \<open>Inputs for the examples\<close>

text \<open>
  An encoder that writes strings as they are and rejects every other value, a record
  with no field set, a service with one page, and a world in which nothing fails, whose
  clock stands at the epoch and whose service answers with one page of one bare record.
\<close>

definition plain_encoder :: json_encoder where
  "plain_encoder =
     \<lparr>encodeString = (\<lambda>s. s),
      encodeValue = (\<lambda>v. case v of GoString s \<Rightarrow> Some s | _ \<Rightarrow> None)\<rparr>"

definition bare_resource :: resource where
  "bare_resource =
     \<lparr>DisplayName = None, ResourceType = None, Identifier = None, CompartmentId = None,
      LifecycleState = None, AvailabilityDomain = None, TimeCreated = None,
      DefinedTags = None, FreeformTags = None\<rparr>"

definition one_page :: "resource list \<Rightarrow> nat \<Rightarrow> string option \<Rightarrow> search_response option" where
  "one_page items k page = Some \<lparr>Items = items, OpcNextPage = None\<rparr>"

definition good_world :: world where
  "good_world =
     \<lparr>clock = (\<lambda>k. 0), providerOk = True, clientOk = True, mkdirOk = True,
      createOk = (\<lambda>k. True), writeOk = (\<lambda>k n. True),
      SearchResources = one_page [bare_resource]\<rparr>"

text \<open>A service with two pages: the first has one bare record and the cursor \<open>p2\<close>.\<close>

definition two_pages :: "nat \<Rightarrow> string option \<Rightarrow> search_response option" where
  "two_pages k page =
     (case page of
        None \<Rightarrow> Some \<lparr>Items = [bare_resource], OpcNextPage = Some ''p2''\<rparr>
      | Some c \<Rightarrow> Some \<lparr>Items = [], OpcNextPage = None\<rparr>)"

definition both_flags :: flags where
  "both_flags = \<lparr>createMissingTagsFile = True, createNoOwnerFile = True\<rparr>"

definition no_flags :: flags where
  "no_flags = \<lparr>createMissingTagsFile = False, createNoOwnerFile = False\<rparr>"

text \<open>
  A \<^verbatim>\<open>csv.Writer\<close> collects up to 4096 bytes before it hands them to its file. Its
  \<^verbatim>\<open>Write\<close> can therefore fail only when the row does not fit into what is left of that
  space, and once it has failed it fails on every later row. The header takes 162 bytes.
  The failing writes of the examples are of this kind: a record whose display name alone
  has 5000 bytes, so that its row is handed to the file at once, and a world whose
  service has one page with that record and in which the file of one sink takes nothing
  from then on: on that sink only the header (write \<open>0\<close>, which stays in the buffer) is
  accepted.
\<close>

definition long_name :: string where
  "long_name = replicate 5000 (CHR ''a'')"

definition big_resource :: resource where
  "big_resource = bare_resource\<lparr>DisplayName := Some long_name\<rparr>"

definition file_fails :: "sink_kind \<Rightarrow> world" where
  "file_fails k0 =
     good_world\<lparr>writeOk := (\<lambda>k n. k \<noteq> k0 \<or> n = 0), SearchResources := one_page [big_resource]\<rparr>"

text \<open>A record with one defined tag, its owner.\<close>

definition owned_resource :: resource where
  "owned_resource =
     bare_resource\<lparr>DefinedTags := Some [(''Oracle-Tags'', Some [(''CreatedBy'', GoString ''alice'')])]\<rparr>"

text \<open>
  The worlds of a run with the regions \<open>a\<close> and \<open>b\<close> around midnight of the last day of
  2023: the task of \<open>a\<close> reads the clock one nanosecond before midnight, the task of
  \<open>b\<close> at midnight.
\<close>

definition midnight_worlds :: "string \<Rightarrow> world" where
  "midnight_worlds s =
     good_world\<lparr>clock := (\<lambda>k. if s = ''a'' then 1704067199999999999 else 1704067200000000000)\<rparr>"

section \<open>Theorems\<close>

subsection \<open>Serialisation of the tags\<close>

lemma mset_sort_unique:
  fixes xs ys :: "('a::linorder) list"
  assumes "mset xs = mset ys"
  shows "sort xs = sort ys"
  by (rule properties_for_sort) (simp_all add: assms)

lemma len_map_mset: "mset (range_map a) = mset (range_map b) \<Longrightarrow> len_map a = len_map b"
  by (auto simp: len_map_def range_map_def split: option.splits dest: mset_eq_length)

lemma FreeformTags_Join_sort:
  "FreeformTagsToString tags = Join (sort (map (\<lambda>(k, v). k @ ''='' @ v) (range_map tags))) '', ''"
  by (cases tags) (auto simp: FreeformTagsToString_def len_map_def range_map_def)

lemma FreeformTags_order_irrelevant:
  assumes eq: "mset (range_map tags) = mset (range_map tags')"
  shows "FreeformTagsToString tags = FreeformTagsToString tags'"
proof -
  have "mset (map (\<lambda>(k, v). k @ ''='' @ v) (range_map tags)) = mset (map (\<lambda>(k, v). k @ ''='' @ v) (range_map tags'))"
    by (simp add: eq)
  then have "sort (map (\<lambda>(k, v). k @ ''='' @ v) (range_map tags)) = sort (map (\<lambda>(k, v). k @ ''='' @ v) (range_map tags'))"
    by (rule mset_sort_unique)
  then show ?thesis
    by (simp add: FreeformTags_Join_sort)
qed

lemma FreeformTags_example_ba:
  "FreeformTagsToString (Some [(''b'', ''2''), (''a'', ''1'')]) = ''a=1, b=2''"
  by (simp add: FreeformTagsToString_def len_map_def range_map_def)

lemma FreeformTags_example_ab:
  "FreeformTagsToString (Some [(''a'', ''1''), (''b'', ''2'')]) = ''a=1, b=2''"
  by (simp add: FreeformTagsToString_def len_map_def range_map_def)

text \<open>
  Claim C9. The freeform tags are written as the \<open>key=value\<close> strings, sorted as whole
  strings and joined by a comma and a space; no tags give the empty string; the map
  \<open>{"b":"2","a":"1"}\<close> gives \<open>a=1, b=2\<close> in either order of iteration; and two orders of
  iteration over the same entries give the same string.
\<close>

theorem FreeformTagsToString_sorted_join:
  "(len_map tags = 0 \<longrightarrow> FreeformTagsToString tags = []) \<and>
   (\<exists>parts. sorted parts \<and> mset parts = mset (map (\<lambda>(k, v). k @ ''='' @ v) (range_map tags)) \<and>
      FreeformTagsToString tags = Join parts '', '') \<and>
   FreeformTagsToString (Some [(''b'', ''2''), (''a'', ''1'')]) = ''a=1, b=2'' \<and>
   FreeformTagsToString (Some [(''a'', ''1''), (''b'', ''2'')]) = ''a=1, b=2'' \<and>
   (mset (range_map tags) = mset (range_map tags') \<longrightarrow> FreeformTagsToString tags = FreeformTagsToString tags')"
proof -
  have c1: "len_map tags = 0 \<longrightarrow> FreeformTagsToString tags = []"
    by (simp add: FreeformTagsToString_def)
  let ?ps = "sort (map (\<lambda>(k, v). k @ ''='' @ v) (range_map tags))"
  have "sorted ?ps" and "mset ?ps = mset (map (\<lambda>(k, v). k @ ''='' @ v) (range_map tags))"
    and "FreeformTagsToString tags = Join ?ps '', ''"
    by (simp_all only: sorted_sort mset_sort FreeformTags_Join_sort)
  then have c2: "\<exists>parts. sorted parts \<and> mset parts = mset (map (\<lambda>(k, v). k @ ''='' @ v) (range_map tags)) \<and>
      FreeformTagsToString tags = Join parts '', ''"
    by blast
  have c5: "mset (range_map tags) = mset (range_map tags') \<longrightarrow> FreeformTagsToString tags = FreeformTagsToString tags'"
    by (rule impI) (rule FreeformTags_order_irrelevant)
  from c1 c2 FreeformTags_example_ba FreeformTags_example_ab c5 show ?thesis
    by (intro conjI)
qed

lemma FreeformTags_example_eq:
  "FreeformTagsToString (Some [(''k'', ''v''), (''a'', ''=b'')]) = ''a==b, k=v''"
  by (simp add: FreeformTagsToString_def len_map_def range_map_def)

theorem FreeformTagsToString_sorted_join_witness:
  "FreeformTagsToString (Some [(''k'', ''v''), (''a'', ''=b'')]) = FreeformTagsToString (Some [(''a'', ''=b''), (''k'', ''v'')]) \<and>
   FreeformTagsToString (Some [(''k'', ''v''), (''a'', ''=b'')]) = ''a==b, k=v'' \<and>
   FreeformTagsToString None = []"
proof -
  have m: "mset (range_map (Some [(''k'', ''v''), (''a'', ''=b'')])) = mset (range_map (Some [(''a'', ''=b''), (''k'', ''v'')]))"
    by (simp add: range_map_def)
  have z: "len_map (None :: string go_map) = 0"
    by (simp add: len_map_def)
  note t = FreeformTagsToString_sorted_join [of "Some [(''k'', ''v''), (''a'', ''=b'')]" "Some [(''a'', ''=b''), (''k'', ''v'')]"]
  have t1: "FreeformTagsToString (Some [(''k'', ''v''), (''a'', ''=b'')]) = FreeformTagsToString (Some [(''a'', ''=b''), (''k'', ''v'')])"
    by (rule mp [OF conjunct2 [OF conjunct2 [OF conjunct2 [OF conjunct2 [OF t]]]] m])
  have t2: "FreeformTagsToString (None :: string go_map) = []"
    by (rule mp [OF conjunct1 [OF FreeformTagsToString_sorted_join [of None None]] z])
  from t1 FreeformTags_example_eq t2 show ?thesis
    by (intro conjI)
qed

lemma DefinedTags_nil: "DefinedTagsToString lib None = ''null''"
  by (simp add: DefinedTagsToString_def json_Marshal_def encode_map_def)

lemma DefinedTags_empty: "DefinedTagsToString lib (Some []) = ''{}''"
  by (simp add: DefinedTagsToString_def json_Marshal_def encode_map_def)

lemma encode_map_nonempty: "encode_map lib enc m = Some s \<Longrightarrow> s \<noteq> []"
  by (cases m) (auto simp: encode_map_def Let_def split: if_splits)

lemma DefinedTags_error: "DefinedTagsToString lib dt = [] \<Longrightarrow> json_Marshal lib dt = None"
  unfolding DefinedTagsToString_def json_Marshal_def
  by (cases "encode_map lib (encode_map lib (encodeValue lib)) dt") (auto dest: encode_map_nonempty)

lemma make_row_9: "make_row lib section now r ! 9 = DefinedTagsToString lib (DefinedTags r)"
  by (simp add: make_row_def split: prod.splits)

text \<open>
  Claim C10. A record whose defined tags are a nil map has the four characters \<open>null\<close>
  in the defined-tags field of its row (the tenth field), a record whose defined tags
  are an empty map has \<open>{}\<close>, and the field is the empty string only when
  \<^verbatim>\<open>json.Marshal\<close> reports an error.
\<close>

theorem DefinedTagsToString_nil_is_null:
  "DefinedTagsToString lib None = ''null'' \<and>
   DefinedTagsToString lib (Some []) = ''{}'' \<and>
   (DefinedTagsToString lib dt = [] \<longrightarrow> json_Marshal lib dt = None) \<and>
   make_row lib section now (r\<lparr>DefinedTags := None\<rparr>) ! 9 = ''null'' \<and>
   make_row lib section now (r\<lparr>DefinedTags := Some []\<rparr>) ! 9 = ''{}''"
  using DefinedTags_error [of lib dt]
  by (simp add: DefinedTags_nil DefinedTags_empty make_row_9)

theorem DefinedTagsToString_nil_is_null_witness:
  "DefinedTagsToString \<lparr>encodeString = (\<lambda>s. s), encodeValue = (\<lambda>v. None)\<rparr>
     (Some [(''ns'', Some [(''k'', GoOther 0)])]) = [] \<and>
   json_Marshal \<lparr>encodeString = (\<lambda>s. s), encodeValue = (\<lambda>v. None)\<rparr>
     (Some [(''ns'', Some [(''k'', GoOther 0)])]) = None"
proof -
  have e: "DefinedTagsToString \<lparr>encodeString = (\<lambda>s. s), encodeValue = (\<lambda>v. None)\<rparr>
     (Some [(''ns'', Some [(''k'', GoOther 0)])]) = []"
    by (simp add: DefinedTagsToString_def json_Marshal_def encode_map_def)
  have "json_Marshal \<lparr>encodeString = (\<lambda>s. s), encodeValue = (\<lambda>v. None)\<rparr>
     (Some [(''ns'', Some [(''k'', GoOther 0)])]) = None"
    using DefinedTagsToString_nil_is_null
      [of "\<lparr>encodeString = (\<lambda>s. s), encodeValue = (\<lambda>v. None)\<rparr>" "Some [(''ns'', Some [(''k'', GoOther 0)])]"] e
    by simp
  with e show ?thesis by simp
qed

subsection \<open>Classification\<close>

lemma of_char_ascii_lower:
  "(of_char (ascii_lower c) :: nat) =
     (if 65 \<le> (of_char c :: nat) \<and> (of_char c :: nat) \<le> 90 then of_char c + 32 else of_char c)"
  by (simp add: ascii_lower_def)

lemma ascii_lower_eq_iff:
  "ascii_lower a = ascii_lower b \<longleftrightarrow> (of_char (ascii_lower a) :: nat) = of_char (ascii_lower b)"
  by simp

lemma fold_step:
  assumes "(of_char tr :: nat) < 128"
  shows "(\<not> ((128::nat) \<le> of_char sr \<or> (128::nat) \<le> of_char tr) \<and>
          (tr = sr \<or> (65 \<le> min (of_char sr) (of_char tr :: nat) \<and> min (of_char sr) (of_char tr :: nat) \<le> 90 \<and>
                       max (of_char sr) (of_char tr :: nat) = min (of_char sr) (of_char tr) + 97 - 65)))
         \<longleftrightarrow> ascii_lower sr = ascii_lower tr"
proof -
  have inj: "tr = sr \<longleftrightarrow> (of_char tr :: nat) = of_char sr"
    by simp
  show ?thesis
    unfolding ascii_lower_eq_iff of_char_ascii_lower inj
    using assms by (auto simp: min_def max_def)
qed

lemma EqualFold_ascii:
  "\<forall>c\<in>set t. (of_char c :: nat) < 128 \<Longrightarrow> EqualFold s t = case_insensitive_eq s t"
proof (induction s t rule: EqualFold.induct)
  case (1 sr s tr t)
  have tr: "(of_char tr :: nat) < 128" and rest: "\<forall>c\<in>set t. (of_char c :: nat) < 128"
    using "1.prems" by simp_all
  show ?case
  proof (cases "ascii_lower sr = ascii_lower tr")
    case True
    with fold_step [OF tr, of sr] have c: "\<not> ((128::nat) \<le> of_char sr \<or> (128::nat) \<le> of_char tr)"
      and d: "tr = sr \<or> (65 \<le> min (of_char sr) (of_char tr :: nat) \<and> min (of_char sr) (of_char tr :: nat) \<le> 90 \<and>
                       max (of_char sr) (of_char tr :: nat) = min (of_char sr) (of_char tr) + 97 - 65)"
      by blast+
    have "EqualFold (sr # s) (tr # t) = EqualFold s t"
      using c d by (auto simp: Let_def)
    moreover have "EqualFold s t = case_insensitive_eq s t"
      using "1.IH" rest c d by (cases "tr = sr") (auto simp: Let_def)
    ultimately show ?thesis
      using True by (simp add: case_insensitive_eq_def)
  next
    case False
    with fold_step [OF tr, of sr] have "\<not> EqualFold (sr # s) (tr # t)"
      by (auto simp: Let_def)
    with False show ?thesis
      by (simp add: case_insensitive_eq_def)
  qed
next
  case (2 t)
  then show ?case by (auto simp: case_insensitive_eq_def)
next
  case (3 v va)
  then show ?case by (auto simp: case_insensitive_eq_def)
qed

lemma EqualFold_CreatedBy: "EqualFold key ''CreatedBy'' = case_insensitive_eq key ''CreatedBy''"
  by (rule EqualFold_ascii) simp

definition owner_entry :: "string \<times> go_value \<Rightarrow> bool" where
  "owner_entry e = (case_insensitive_eq (fst e) ''CreatedBy'' \<and> (\<exists>s. snd e = GoString s \<and> s \<noteq> []))"

lemma namespace_loop_iff: "namespace_loop es \<longleftrightarrow> (\<exists>e \<in> set es. owner_entry e)"
proof (induction es rule: namespace_loop.induct)
  case 1
  show ?case by simp
next
  case (2 key val rest)
  have "(case val of GoString strVal \<Rightarrow> strVal \<noteq> [] | _ \<Rightarrow> False) = (\<exists>s. val = GoString s \<and> s \<noteq> [])"
    by (cases val) simp_all
  with 2 show ?case
    by (auto simp: owner_entry_def EqualFold_CreatedBy)
qed

lemma definedTags_loop_iff:
  "definedTags_loop nss \<longleftrightarrow> (\<exists>n \<in> set nss. \<exists>e \<in> set (range_map (snd n)). owner_entry e)"
  by (induction nss rule: definedTags_loop.induct) (simp_all add: namespace_loop_iff)

lemma hasCreatedByTag_iff:
  "hasCreatedByTag T \<longleftrightarrow> (\<exists>n \<in> set (range_map T). \<exists>e \<in> set (range_map (snd n)). owner_entry e)"
  by (cases T) (auto simp: hasCreatedByTag_def definedTags_loop_iff len_map_def range_map_def)
lemma ex_pairs:
  "(\<exists>n\<in>A. \<exists>e\<in>B (snd n). Q (fst e) \<and> (\<exists>s. snd e = G s \<and> R s)) \<longleftrightarrow>
   (\<exists>ns m key val s. (ns, m) \<in> A \<and> (key, val) \<in> B m \<and> Q key \<and> val = G s \<and> R s)"
proof
  assume "\<exists>n\<in>A. \<exists>e\<in>B (snd n). Q (fst e) \<and> (\<exists>s. snd e = G s \<and> R s)"
  then obtain n e s where "n \<in> A" "e \<in> B (snd n)" "Q (fst e)" "snd e = G s" "R s"
    by blast
  moreover obtain ns m where "n = (ns, m)"
    by (cases n)
  moreover obtain key val where "e = (key, val)"
    by (cases e)
  ultimately have "(ns, m) \<in> A \<and> (key, val) \<in> B m \<and> Q key \<and> val = G s \<and> R s"
    by simp
  then show "\<exists>ns m key val s. (ns, m) \<in> A \<and> (key, val) \<in> B m \<and> Q key \<and> val = G s \<and> R s"
    by blast
next
  assume "\<exists>ns m key val s. (ns, m) \<in> A \<and> (key, val) \<in> B m \<and> Q key \<and> val = G s \<and> R s"
  then obtain ns m key val s where "(ns, m) \<in> A" "(key, val) \<in> B m" "Q key" "val = G s" "R s"
    by blast
  then show "\<exists>n\<in>A. \<exists>e\<in>B (snd n). Q (fst e) \<and> (\<exists>s. snd e = G s \<and> R s)"
    by force
qed

lemma EqualFold_refl_CreatedBy: "EqualFold ''CreatedBy'' ''CreatedBy''"
  by simp

text \<open>
  Claim C4. A record is labelled as having no owner exactly when its defined tags are
  empty (or nil), or no namespace holds a key equal to \<open>CreatedBy\<close> up to case whose
  value is a non-empty string. A number, a boolean or the empty string under the key
  does not count, whatever the namespace is called; a non-empty string does.
\<close>

theorem missingOwner_iff:
  "(missingOwner T \<longleftrightarrow>
      (len_map T = 0 \<or>
       \<not> (\<exists>ns m key val s. (ns, m) \<in> set (range_map T) \<and> (key, val) \<in> set (range_map m) \<and>
              case_insensitive_eq key ''CreatedBy'' \<and> val = GoString s \<and> s \<noteq> []))) \<and>
   missingOwner (Some [(ns, Some [(''CreatedBy'', GoFloat64 q)])]) \<and>
   missingOwner (Some [(ns, Some [(''CreatedBy'', GoBool b)])]) \<and>
   missingOwner (Some [(ns, Some [(''CreatedBy'', GoString [])])]) \<and>
   \<not> missingOwner (Some [(ns, Some [(''CreatedBy'', GoString (c # cs))])])"
proof -
  have "hasCreatedByTag T \<longleftrightarrow>
      (\<exists>ns m key val s. (ns, m) \<in> set (range_map T) \<and> (key, val) \<in> set (range_map m) \<and>
              case_insensitive_eq key ''CreatedBy'' \<and> val = GoString s \<and> s \<noteq> [])"
    unfolding hasCreatedByTag_iff owner_entry_def by (rule ex_pairs)
  then have main: "missingOwner T \<longleftrightarrow>
      (len_map T = 0 \<or>
       \<not> (\<exists>ns m key val s. (ns, m) \<in> set (range_map T) \<and> (key, val) \<in> set (range_map m) \<and>
              case_insensitive_eq key ''CreatedBy'' \<and> val = GoString s \<and> s \<noteq> []))"
    by (simp only: missingOwner_def)
  have e1: "missingOwner (Some [(ns, Some [(''CreatedBy'', GoFloat64 q)])])"
    by (simp add: missingOwner_def hasCreatedByTag_def len_map_def range_map_def)
  have e2: "missingOwner (Some [(ns, Some [(''CreatedBy'', GoBool b)])])"
    by (simp add: missingOwner_def hasCreatedByTag_def len_map_def range_map_def)
  have e3: "missingOwner (Some [(ns, Some [(''CreatedBy'', GoString [])])])"
    by (simp add: missingOwner_def hasCreatedByTag_def len_map_def range_map_def)
  have e4: "\<not> missingOwner (Some [(ns, Some [(''CreatedBy'', GoString (c # cs))])])"
    by (simp add: missingOwner_def hasCreatedByTag_def len_map_def range_map_def)
  from main e1 e2 e3 e4 show ?thesis
    by (intro conjI)
qed

theorem missingOwner_iff_witness:
  "\<not> missingOwner (Some [(''Oracle-Tags'', Some [(''createdBY'', GoString ''alice'')])]) \<and>
   missingOwner (Some [(''Oracle-Tags'', Some [(''CreatedBy2'', GoString ''alice'')])]) \<and>
   missingOwner (Some []) \<and> missingOwner None"
proof -
  have l: "case_insensitive_eq ''createdBY'' ''CreatedBy''"
    unfolding EqualFold_CreatedBy [symmetric] by simp
  have n: "\<not> case_insensitive_eq ''CreatedBy2'' ''CreatedBy''"
    unfolding EqualFold_CreatedBy [symmetric] by simp
  note t = conjunct1 [OF missingOwner_iff]
  have w1: "\<not> missingOwner (Some [(''Oracle-Tags'', Some [(''createdBY'', GoString ''alice'')])])"
    unfolding t [of "Some [(''Oracle-Tags'', Some [(''createdBY'', GoString ''alice'')])]"]
    using l by (simp add: len_map_def range_map_def)
  have w2: "missingOwner (Some [(''Oracle-Tags'', Some [(''CreatedBy2'', GoString ''alice'')])])"
    unfolding t [of "Some [(''Oracle-Tags'', Some [(''CreatedBy2'', GoString ''alice'')])]"]
    using n by (simp add: len_map_def range_map_def)
  have w3: "missingOwner (Some [])"
    unfolding t [of "Some []"] by (simp add: len_map_def)
  have w4: "missingOwner None"
    unfolding t [of None] by (simp add: len_map_def)
  from w1 w2 w3 w4 show ?thesis
    by (intro conjI)
qed

subsection \<open>The record loop\<close>

lemma bare_row:
  "make_row plain_encoder ''r'' 0 bare_resource = [''r'', [], [], [], [], [], ''N/A'', ''N/A'', [], ''null'', []]"
  by (simp add: make_row_def bare_resource_def formatTimeCreated_def getStringValue_def DefinedTags_nil
      FreeformTagsToString_def len_map_def)

lemma long_name_length: "length long_name = 5000"
  by (simp add: long_name_def)

lemma big_row:
  "make_row plain_encoder ''r'' 0 big_resource = [''r'', long_name, [], [], [], [], ''N/A'', ''N/A'', [], ''null'', []]"
  by (simp add: make_row_def big_resource_def bare_resource_def formatTimeCreated_def getStringValue_def DefinedTags_nil
      FreeformTagsToString_def len_map_def)

lemma process_resource_main_fail:
  assumes "\<not> writeOk w Resources (writes (mainWriter st))"
  shows "process_resource w fl lib section st r =
           log_Printf (ErrWrite Resources)
             (st\<lparr>ticks := (if TimeCreated r = None then ticks st else Suc (ticks st)),
                 mainWriter := (mainWriter st)\<lparr>writes := Suc (writes (mainWriter st))\<rparr>\<rparr>)"
  using assms by (simp add: process_resource_def Write_def Let_def)

lemma write_missing_tags_keeps:
  "mainWriter (write_missing_tags w fl r row st) = mainWriter st \<and>
   totalResources (write_missing_tags w fl r row st) = totalResources st \<and>
   noOwnerWriter (write_missing_tags w fl r row st) = noOwnerWriter st \<and>
   noOwnerCount (write_missing_tags w fl r row st) = noOwnerCount st \<and>
   created (write_missing_tags w fl r row st) = created st \<and>
   ticks (write_missing_tags w fl r row st) = ticks st \<and>
   calls (write_missing_tags w fl r row st) = calls st \<and>
   defers (write_missing_tags w fl r row st) = defers st"
  by (simp add: write_missing_tags_def Write_def log_Printf_def split: option.splits)

lemma write_no_owner_keeps:
  "mainWriter (write_no_owner w fl r row st) = mainWriter st \<and>
   totalResources (write_no_owner w fl r row st) = totalResources st \<and>
   missingTagsWriter (write_no_owner w fl r row st) = missingTagsWriter st \<and>
   missingTagsCount (write_no_owner w fl r row st) = missingTagsCount st \<and>
   created (write_no_owner w fl r row st) = created st \<and>
   ticks (write_no_owner w fl r row st) = ticks st \<and>
   calls (write_no_owner w fl r row st) = calls st \<and>
   defers (write_no_owner w fl r row st) = defers st"
  by (simp add: write_no_owner_def Write_def log_Printf_def split: option.splits)

lemma process_resource_main_ok:
  assumes "writeOk w Resources (writes (mainWriter st))"
  shows "mainWriter (process_resource w fl lib section st r) =
           \<lparr>rows = rows (mainWriter st) @ [make_row lib section (clock w (ticks st)) r],
            writes = Suc (writes (mainWriter st))\<rparr>"
    and "totalResources (process_resource w fl lib section st r) = totalResources st + 1"
  using assms
  by (simp_all add: process_resource_def Write_def Let_def write_missing_tags_keeps write_no_owner_keeps)

text \<open>
  Claim C1, as the code has it. When the write of a record's row to the main sink
  fails, the failure is logged and the record is left at once: no sink receives the row,
  the exception sinks are not even asked, and \<open>totalResources\<close> stays as it is. When the
  write succeeds, the main sink has the row and \<open>totalResources\<close> grows by one, whatever
  the writes to the exception sinks do. Either way the loop goes on with the next record.
\<close>

theorem main_write_failure_skips_record:
  "(\<not> writeOk w Resources (writes (mainWriter st)) \<longrightarrow>
      sink_rows Resources (process_resource w fl lib section st r) = sink_rows Resources st \<and>
      missingTagsWriter (process_resource w fl lib section st r) = missingTagsWriter st \<and>
      noOwnerWriter (process_resource w fl lib section st r) = noOwnerWriter st \<and>
      totalResources (process_resource w fl lib section st r) = totalResources st \<and>
      trace (process_resource w fl lib section st r) = trace st @ [Log (ErrWrite Resources)]) \<and>
   (writeOk w Resources (writes (mainWriter st)) \<longrightarrow>
      sink_rows Resources (process_resource w fl lib section st r) =
        sink_rows Resources st @ [make_row lib section (clock w (ticks st)) r] \<and>
      totalResources (process_resource w fl lib section st r) = totalResources st + 1) \<and>
   items_loop w fl lib section st (r # rs) =
     items_loop w fl lib section (process_resource w fl lib section st r) rs"
proof (intro conjI impI)
  assume f: "\<not> writeOk w Resources (writes (mainWriter st))"
  show "sink_rows Resources (process_resource w fl lib section st r) = sink_rows Resources st"
    and "missingTagsWriter (process_resource w fl lib section st r) = missingTagsWriter st"
    and "noOwnerWriter (process_resource w fl lib section st r) = noOwnerWriter st"
    and "totalResources (process_resource w fl lib section st r) = totalResources st"
    and "trace (process_resource w fl lib section st r) = trace st @ [Log (ErrWrite Resources)]"
    by (simp_all add: process_resource_main_fail [OF f] log_Printf_def sink_rows_def)
next
  assume s: "writeOk w Resources (writes (mainWriter st))"
  show "sink_rows Resources (process_resource w fl lib section st r) =
        sink_rows Resources st @ [make_row lib section (clock w (ticks st)) r]"
    by (simp add: sink_rows_def process_resource_main_ok(1) [OF s])
  show "totalResources (process_resource w fl lib section st r) = totalResources st + 1"
    by (rule process_resource_main_ok(2) [OF s])
next
  show "items_loop w fl lib section st (r # rs) =
     items_loop w fl lib section (process_resource w fl lib section st r) rs"
    by simp
qed

theorem main_write_failure_skips_record_witness:
  "totalResources (process_resource (file_fails Resources) both_flags plain_encoder ''r''
      (after_setup both_flags ''r'' ''t'') big_resource) = 0 \<and>
   missingTagsWriter (process_resource (file_fails Resources) both_flags plain_encoder ''r''
      (after_setup both_flags ''r'' ''t'') big_resource) = Some header_sink \<and>
   totalResources (process_resource good_world both_flags plain_encoder ''r''
      (after_setup both_flags ''r'' ''t'') big_resource) = 1"
proof -
  let ?st = "after_setup both_flags ''r'' ''t''"
  have b: "\<not> writeOk (file_fails Resources) Resources (writes (mainWriter ?st))"
    by (simp add: file_fails_def after_setup_def header_sink_def)
  have g: "writeOk good_world Resources (writes (mainWriter ?st))"
    by (simp add: good_world_def)
  have z: "totalResources ?st = 0" "missingTagsWriter ?st = Some header_sink"
    by (simp_all add: after_setup_def both_flags_def)
  note t1 = mp [OF conjunct1 [OF main_write_failure_skips_record [of "file_fails Resources" ?st both_flags plain_encoder "''r''" big_resource "[]"]] b]
  note t2 = mp [OF conjunct1 [OF conjunct2 [OF main_write_failure_skips_record [of good_world ?st both_flags plain_encoder "''r''" big_resource "[]"]]] g]
  from t1 t2 z show ?thesis
    by simp
qed

text \<open>
  Claim C1 as it is written fails. One page with one record that has no defined tags and
  a display name of 5000 bytes, both exception sinks open and their files working, and a
  main file that takes nothing: the row does not fit into the buffer of the main sink
  after the header, so its write fails. The claim has the row in both exception sinks
  and \<open>totalResources = 1\<close>; the task ends with the headers alone in all three sinks and
  \<open>totalResources = 0\<close>.
\<close>

theorem main_write_failure_counterexample:
  "SearchResources (file_fails Resources) 0 None = Some \<lparr>Items = [big_resource], OpcNextPage = None\<rparr> \<and>
   length (getStringValue (DisplayName big_resource)) = 5000 \<and>
   missingDefinedTags (DefinedTags big_resource) \<and> missingOwner (DefinedTags big_resource) \<and>
   ExecuteFullSearch 1 (file_fails Resources) both_flags plain_encoder ''r'' \<noteq> None \<and>
   totalResources (the (ExecuteFullSearch 1 (file_fails Resources) both_flags plain_encoder ''r'')) = 0 \<and>
   sink_rows MissingTags (the (ExecuteFullSearch 1 (file_fails Resources) both_flags plain_encoder ''r'')) = [headers] \<and>
   sink_rows NoOwner (the (ExecuteFullSearch 1 (file_fails Resources) both_flags plain_encoder ''r'')) = [headers] \<and>
   sink_rows Resources (the (ExecuteFullSearch 1 (file_fails Resources) both_flags plain_encoder ''r'')) = [headers]"
  by (simp add: ExecuteFullSearch_def file_fails_def good_world_def both_flags_def create_files_def create_optional_def
     write_headers_def Write_def new_sink_def init_task_def defer_close_flush_def one_page_def
     process_resource_def big_resource_def bare_resource_def getStringValue_def long_name_length
     log_Printf_def return_def finish_def sink_rows_def Let_def
     missingDefinedTags_def missingOwner_def len_map_def)

lemma process_resource_main:
  "writes (mainWriter (process_resource w fl lib section st r)) = Suc (writes (mainWriter st))"
  "calls (process_resource w fl lib section st r) = calls st"
  "created (process_resource w fl lib section st r) = created st"
  "defers (process_resource w fl lib section st r) = defers st"
  "rows (mainWriter (process_resource w fl lib section st r)) =
     rows (mainWriter st) @
     (if writeOk w Resources (writes (mainWriter st)) then [make_row lib section (clock w (ticks st)) r] else [])"
  "totalResources (process_resource w fl lib section st r) =
     totalResources st + (if writeOk w Resources (writes (mainWriter st)) then 1 else 0)"
  "ticks (process_resource w fl lib section st r) = (if TimeCreated r = None then ticks st else Suc (ticks st))"
  by (cases "writeOk w Resources (writes (mainWriter st))";
      simp add: process_resource_def Write_def Let_def log_Printf_def write_missing_tags_keeps write_no_owner_keeps)+

lemma write_missing_tags_trace:
  "\<exists>ext. trace (write_missing_tags w fl r row st) = trace st @ ext"
  by (simp add: write_missing_tags_def Write_def log_Printf_def split: option.splits)

lemma write_no_owner_trace:
  "\<exists>ext. trace (write_no_owner w fl r row st) = trace st @ ext"
  by (simp add: write_no_owner_def Write_def log_Printf_def split: option.splits)

lemma missingDefinedTags_iff: "missingDefinedTags T \<longleftrightarrow> range_map T = []"
  by (cases T) (simp_all add: missingDefinedTags_def len_map_def range_map_def)

lemma write_missing_tags_sink:
  assumes "missingTagsWriter st = Some mt"
  shows "missingTagsWriter (write_missing_tags w fl r row st) =
           Some (if createMissingTagsFile fl \<and> range_map (DefinedTags r) = []
                 then mt\<lparr>rows := rows mt @ (if writeOk w MissingTags (writes mt) then [row] else []),
                         writes := Suc (writes mt)\<rparr>
                 else mt)"
    and "missingTagsCount (write_missing_tags w fl r row st) =
           missingTagsCount st +
           (if createMissingTagsFile fl \<and> range_map (DefinedTags r) = [] \<and> writeOk w MissingTags (writes mt)
            then 1 else 0)"
    and "trace (write_missing_tags w fl r row st) =
           trace st @
           (if createMissingTagsFile fl \<and> range_map (DefinedTags r) = [] \<and> \<not> writeOk w MissingTags (writes mt)
            then [Log (ErrWrite MissingTags)] else [])"
  using assms by (simp_all add: write_missing_tags_def Write_def log_Printf_def missingDefinedTags_iff)

lemma write_missing_tags_closed:
  assumes "missingTagsWriter st = None"
  shows "write_missing_tags w fl r row st = st"
  using assms by (simp add: write_missing_tags_def)

lemma process_resource_unfold:
  assumes "writeOk w Resources (writes (mainWriter st))"
  shows "\<exists>st1. missingTagsWriter st1 = missingTagsWriter st \<and> missingTagsCount st1 = missingTagsCount st \<and>
               trace st1 = trace st \<and> totalResources st1 = totalResources st \<and>
               process_resource w fl lib section st r =
                 (write_no_owner w fl r (make_row lib section (clock w (ticks st)) r)
                    (write_missing_tags w fl r (make_row lib section (clock w (ticks st)) r) st1))
                 \<lparr>totalResources :=
                    totalResources (write_no_owner w fl r (make_row lib section (clock w (ticks st)) r)
                      (write_missing_tags w fl r (make_row lib section (clock w (ticks st)) r) st1)) + 1\<rparr>"
proof -
  let ?row = "make_row lib section (clock w (ticks st)) r"
  let ?st1 = "(if TimeCreated r = None then st else st\<lparr>ticks := Suc (ticks st)\<rparr>)\<lparr>mainWriter :=
                 (mainWriter st)\<lparr>rows := rows (mainWriter st) @ [?row], writes := Suc (writes (mainWriter st))\<rparr>\<rparr>"
  have "process_resource w fl lib section st r =
     (write_no_owner w fl r ?row (write_missing_tags w fl r ?row ?st1))
       \<lparr>totalResources := totalResources (write_no_owner w fl r ?row (write_missing_tags w fl r ?row ?st1)) + 1\<rparr>"
    using assms by (cases "TimeCreated r") (simp_all add: process_resource_def Write_def Let_def)
  moreover have "missingTagsWriter ?st1 = missingTagsWriter st" "missingTagsCount ?st1 = missingTagsCount st"
    "trace ?st1 = trace st" "totalResources ?st1 = totalResources st"
    by simp_all
  ultimately show ?thesis
    by blast
qed

lemma process_resource_missing_tags:
  assumes mt: "missingTagsWriter st = Some mt"
  shows "missingTagsWriter (process_resource w fl lib section st r) =
           Some (if writeOk w Resources (writes (mainWriter st)) \<and> createMissingTagsFile fl \<and>
                    range_map (DefinedTags r) = []
                 then mt\<lparr>rows := rows mt @ (if writeOk w MissingTags (writes mt)
                                              then [make_row lib section (clock w (ticks st)) r] else []),
                         writes := Suc (writes mt)\<rparr>
                 else mt)"
    and "missingTagsCount (process_resource w fl lib section st r) =
           missingTagsCount st +
           (if writeOk w Resources (writes (mainWriter st)) \<and> createMissingTagsFile fl \<and>
               range_map (DefinedTags r) = [] \<and> writeOk w MissingTags (writes mt)
            then 1 else 0)"
    and "writeOk w Resources (writes (mainWriter st)) \<and> createMissingTagsFile fl \<and>
         range_map (DefinedTags r) = [] \<and> \<not> writeOk w MissingTags (writes mt) \<Longrightarrow>
           Log (ErrWrite MissingTags) \<in> set (trace (process_resource w fl lib section st r))"
proof -
  let ?row = "make_row lib section (clock w (ticks st)) r"
  show "missingTagsWriter (process_resource w fl lib section st r) =
           Some (if writeOk w Resources (writes (mainWriter st)) \<and> createMissingTagsFile fl \<and>
                    range_map (DefinedTags r) = []
                 then mt\<lparr>rows := rows mt @ (if writeOk w MissingTags (writes mt) then [?row] else []),
                         writes := Suc (writes mt)\<rparr>
                 else mt)"
  proof (cases "writeOk w Resources (writes (mainWriter st))")
    case False
    then show ?thesis
      using mt by (simp add: process_resource_main_fail log_Printf_def)
  next
    case True
    from process_resource_unfold [OF True, of fl lib "section" r] obtain st1
      where s: "missingTagsWriter st1 = missingTagsWriter st"
        and p: "process_resource w fl lib section st r =
                 (write_no_owner w fl r ?row (write_missing_tags w fl r ?row st1))
                 \<lparr>totalResources := totalResources (write_no_owner w fl r ?row (write_missing_tags w fl r ?row st1)) + 1\<rparr>"
      by blast
    from s mt have m1: "missingTagsWriter st1 = Some mt"
      by simp
    show ?thesis
      unfolding p using True write_missing_tags_sink(1) [OF m1, of w fl r ?row]
      by (simp add: write_no_owner_keeps)
  qed
  show "missingTagsCount (process_resource w fl lib section st r) =
           missingTagsCount st +
           (if writeOk w Resources (writes (mainWriter st)) \<and> createMissingTagsFile fl \<and>
               range_map (DefinedTags r) = [] \<and> writeOk w MissingTags (writes mt)
            then 1 else 0)"
  proof (cases "writeOk w Resources (writes (mainWriter st))")
    case False
    then show ?thesis
      by (simp add: process_resource_main_fail log_Printf_def)
  next
    case True
    from process_resource_unfold [OF True, of fl lib "section" r] obtain st1
      where s: "missingTagsWriter st1 = missingTagsWriter st" and c: "missingTagsCount st1 = missingTagsCount st"
        and p: "process_resource w fl lib section st r =
                 (write_no_owner w fl r ?row (write_missing_tags w fl r ?row st1))
                 \<lparr>totalResources := totalResources (write_no_owner w fl r ?row (write_missing_tags w fl r ?row st1)) + 1\<rparr>"
      by blast
    from s mt have m1: "missingTagsWriter st1 = Some mt"
      by simp
    show ?thesis
      unfolding p using True c write_missing_tags_sink(2) [OF m1, of w fl r ?row]
      by (simp add: write_no_owner_keeps)
  qed
  assume a: "writeOk w Resources (writes (mainWriter st)) \<and> createMissingTagsFile fl \<and>
         range_map (DefinedTags r) = [] \<and> \<not> writeOk w MissingTags (writes mt)"
  then have True: "writeOk w Resources (writes (mainWriter st))"
    by simp
  from process_resource_unfold [OF True, of fl lib "section" r] obtain st1
    where s: "missingTagsWriter st1 = missingTagsWriter st" and t: "trace st1 = trace st"
      and p: "process_resource w fl lib section st r =
               (write_no_owner w fl r ?row (write_missing_tags w fl r ?row st1))
               \<lparr>totalResources := totalResources (write_no_owner w fl r ?row (write_missing_tags w fl r ?row st1)) + 1\<rparr>"
    by blast
  from s mt have m1: "missingTagsWriter st1 = Some mt"
    by simp
  have "trace (write_missing_tags w fl r ?row st1) = trace st @ [Log (ErrWrite MissingTags)]"
    using a t write_missing_tags_sink(3) [OF m1, of w fl r ?row] by simp
  moreover obtain ext where "trace (write_no_owner w fl r ?row (write_missing_tags w fl r ?row st1)) =
      trace (write_missing_tags w fl r ?row st1) @ ext"
    using write_no_owner_trace by blast
  ultimately show "Log (ErrWrite MissingTags) \<in> set (trace (process_resource w fl lib section st r))"
    unfolding p by simp
qed

lemma process_resource_missing_tags_closed:
  assumes "missingTagsWriter st = None"
  shows "missingTagsWriter (process_resource w fl lib section st r) = None"
    and "missingTagsCount (process_resource w fl lib section st r) = missingTagsCount st"
proof -
  have "missingTagsWriter (process_resource w fl lib section st r) = None \<and>
        missingTagsCount (process_resource w fl lib section st r) = missingTagsCount st"
  proof (cases "writeOk w Resources (writes (mainWriter st))")
    case False
    then show ?thesis
      using assms by (simp add: process_resource_main_fail log_Printf_def)
  next
    case True
    from process_resource_unfold [OF True, of fl lib "section" r] obtain st1
      where s: "missingTagsWriter st1 = missingTagsWriter st" and c: "missingTagsCount st1 = missingTagsCount st"
        and p: "process_resource w fl lib section st r =
                 (write_no_owner w fl r (make_row lib section (clock w (ticks st)) r)
                    (write_missing_tags w fl r (make_row lib section (clock w (ticks st)) r) st1))
                 \<lparr>totalResources :=
                    totalResources (write_no_owner w fl r (make_row lib section (clock w (ticks st)) r)
                      (write_missing_tags w fl r (make_row lib section (clock w (ticks st)) r) st1)) + 1\<rparr>"
      by blast
    from s assms have "missingTagsWriter st1 = None"
      by simp
    from write_missing_tags_closed [OF this] show ?thesis
      unfolding p using s c assms by (simp add: write_no_owner_keeps)
  qed
  then show "missingTagsWriter (process_resource w fl lib section st r) = None"
    and "missingTagsCount (process_resource w fl lib section st r) = missingTagsCount st"
    by simp_all
qed

text \<open>
  Claim C6, as the code has it. A record counts as missing its defined tags exactly
  when the map has no entry (it is nil or empty). With the missing-tags sink open, the
  sink is asked to take the row of a record exactly when the main sink has accepted that
  row, the flag is set and the record has no defined tag. When that write succeeds, both
  sinks end with the same row and the missing-tags counter grows by one; when it fails,
  the failure is logged, the row is in the main sink only and the counter stays. In every
  other case (a record with a defined tag, a failed write to the main sink, the flag not
  set) the missing-tags sink is left as it was, as is a sink that is not open.
\<close>

theorem missing_tags_sink_routing:
  "(missingDefinedTags T \<longleftrightarrow> range_map T = []) \<and>
   (missingTagsWriter st = Some mt \<longrightarrow>
      sink_rows Resources (process_resource w fl lib section st r) =
        sink_rows Resources st @
        (if writeOk w Resources (writes (mainWriter st))
         then [make_row lib section (clock w (ticks st)) r] else []) \<and>
      sink_rows MissingTags (process_resource w fl lib section st r) =
        sink_rows MissingTags st @
        (if writeOk w Resources (writes (mainWriter st)) \<and> createMissingTagsFile fl \<and>
            range_map (DefinedTags r) = [] \<and> writeOk w MissingTags (writes mt)
         then [make_row lib section (clock w (ticks st)) r] else []) \<and>
      missingTagsCount (process_resource w fl lib section st r) =
        missingTagsCount st +
        (if writeOk w Resources (writes (mainWriter st)) \<and> createMissingTagsFile fl \<and>
            range_map (DefinedTags r) = [] \<and> writeOk w MissingTags (writes mt)
         then 1 else 0) \<and>
      (writeOk w Resources (writes (mainWriter st)) \<and> createMissingTagsFile fl \<and>
       range_map (DefinedTags r) = [] \<and> \<not> writeOk w MissingTags (writes mt) \<longrightarrow>
         Log (ErrWrite MissingTags) \<in> set (trace (process_resource w fl lib section st r))) \<and>
      (\<not> (writeOk w Resources (writes (mainWriter st)) \<and> createMissingTagsFile fl \<and>
          range_map (DefinedTags r) = []) \<longrightarrow>
         missingTagsWriter (process_resource w fl lib section st r) = Some mt)) \<and>
   (missingTagsWriter st = None \<longrightarrow>
      missingTagsWriter (process_resource w fl lib section st r) = None \<and>
      missingTagsCount (process_resource w fl lib section st r) = missingTagsCount st)"
proof (intro conjI impI)
  show "missingDefinedTags T \<longleftrightarrow> range_map T = []"
    by (rule missingDefinedTags_iff)
next
  show "sink_rows Resources (process_resource w fl lib section st r) =
        sink_rows Resources st @
        (if writeOk w Resources (writes (mainWriter st))
         then [make_row lib section (clock w (ticks st)) r] else [])"
    by (simp add: sink_rows_def process_resource_main(5))
next
  assume mt: "missingTagsWriter st = Some mt"
  show "sink_rows MissingTags (process_resource w fl lib section st r) =
        sink_rows MissingTags st @
        (if writeOk w Resources (writes (mainWriter st)) \<and> createMissingTagsFile fl \<and>
            range_map (DefinedTags r) = [] \<and> writeOk w MissingTags (writes mt)
         then [make_row lib section (clock w (ticks st)) r] else [])"
    using mt by (simp add: sink_rows_def process_resource_missing_tags(1) [OF mt])
next
  assume mt: "missingTagsWriter st = Some mt"
  show "missingTagsCount (process_resource w fl lib section st r) =
        missingTagsCount st +
        (if writeOk w Resources (writes (mainWriter st)) \<and> createMissingTagsFile fl \<and>
            range_map (DefinedTags r) = [] \<and> writeOk w MissingTags (writes mt)
         then 1 else 0)"
    by (rule process_resource_missing_tags(2) [OF mt])
next
  assume mt: "missingTagsWriter st = Some mt"
    and a: "writeOk w Resources (writes (mainWriter st)) \<and> createMissingTagsFile fl \<and>
       range_map (DefinedTags r) = [] \<and> \<not> writeOk w MissingTags (writes mt)"
  show "Log (ErrWrite MissingTags) \<in> set (trace (process_resource w fl lib section st r))"
    by (rule process_resource_missing_tags(3) [OF mt a])
next
  assume mt: "missingTagsWriter st = Some mt"
    and a: "\<not> (writeOk w Resources (writes (mainWriter st)) \<and> createMissingTagsFile fl \<and>
          range_map (DefinedTags r) = [])"
  show "missingTagsWriter (process_resource w fl lib section st r) = Some mt"
    using a by (simp add: process_resource_missing_tags(1) [OF mt])
next
  assume n: "missingTagsWriter st = None"
  show "missingTagsWriter (process_resource w fl lib section st r) = None"
    by (rule process_resource_missing_tags_closed(1) [OF n])
  show "missingTagsCount (process_resource w fl lib section st r) = missingTagsCount st"
    by (rule process_resource_missing_tags_closed(2) [OF n])
qed

theorem missing_tags_sink_routing_witness:
  "sink_rows Resources (process_resource good_world both_flags plain_encoder ''r''
      (after_setup both_flags ''r'' ''t'') bare_resource) =
     [headers, [''r'', [], [], [], [], [], ''N/A'', ''N/A'', [], ''null'', []]] \<and>
   sink_rows MissingTags (process_resource good_world both_flags plain_encoder ''r''
      (after_setup both_flags ''r'' ''t'') bare_resource) =
     [headers, [''r'', [], [], [], [], [], ''N/A'', ''N/A'', [], ''null'', []]] \<and>
   sink_rows MissingTags (process_resource good_world both_flags plain_encoder ''r''
      (after_setup both_flags ''r'' ''t'') owned_resource) = [headers] \<and>
   sink_rows MissingTags (process_resource (file_fails MissingTags) both_flags plain_encoder ''r''
      (after_setup both_flags ''r'' ''t'') big_resource) = [headers] \<and>
   Log (ErrWrite MissingTags) \<in> set (trace (process_resource (file_fails MissingTags) both_flags plain_encoder ''r''
      (after_setup both_flags ''r'' ''t'') big_resource))"
proof -
  let ?st = "after_setup both_flags ''r'' ''t''"
  let ?bad = "file_fails MissingTags"
  have m: "missingTagsWriter ?st = Some header_sink"
    by (simp add: after_setup_def both_flags_def)
  have i: "sink_rows Resources ?st = [headers]" "sink_rows MissingTags ?st = [headers]"
    by (simp_all add: sink_rows_def after_setup_def both_flags_def header_sink_def)
  have c: "clock good_world (ticks ?st) = 0"
    by (simp add: good_world_def)
  have g: "writeOk good_world Resources (writes (mainWriter ?st)) \<and> createMissingTagsFile both_flags \<and>
      writeOk good_world MissingTags (writes header_sink)"
    by (simp add: good_world_def both_flags_def)
  have e: "range_map (DefinedTags bare_resource) = []" "range_map (DefinedTags big_resource) = []"
    "range_map (DefinedTags owned_resource) \<noteq> []"
    by (simp_all add: bare_resource_def big_resource_def owned_resource_def range_map_def)
  have b: "writeOk ?bad Resources (writes (mainWriter ?st)) \<and> createMissingTagsFile both_flags \<and>
       range_map (DefinedTags big_resource) = [] \<and> \<not> writeOk ?bad MissingTags (writes header_sink)"
    by (simp add: file_fails_def good_world_def both_flags_def header_sink_def e)
  note t1 = mp [OF conjunct1 [OF conjunct2 [OF missing_tags_sink_routing
      [of _ ?st header_sink good_world both_flags plain_encoder "''r''" bare_resource]]] m]
  note t2 = mp [OF conjunct1 [OF conjunct2 [OF missing_tags_sink_routing
      [of _ ?st header_sink good_world both_flags plain_encoder "''r''" owned_resource]]] m]
  note t3 = mp [OF conjunct1 [OF conjunct2 [OF missing_tags_sink_routing
      [of _ ?st header_sink ?bad both_flags plain_encoder "''r''" big_resource]]] m]
  have p1: "sink_rows Resources (process_resource good_world both_flags plain_encoder ''r'' ?st bare_resource) =
      [headers, [''r'', [], [], [], [], [], ''N/A'', ''N/A'', [], ''null'', []]]"
    using conjunct1 [OF t1] g by (simp only: c i bare_row if_True append.simps)
  have p2: "sink_rows MissingTags (process_resource good_world both_flags plain_encoder ''r'' ?st bare_resource) =
      [headers, [''r'', [], [], [], [], [], ''N/A'', ''N/A'', [], ''null'', []]]"
    using conjunct1 [OF conjunct2 [OF t1]] g e(1) by (simp only: c i bare_row if_True append.simps simp_thms)
  have p3: "sink_rows MissingTags (process_resource good_world both_flags plain_encoder ''r'' ?st owned_resource) = [headers]"
    using conjunct1 [OF conjunct2 [OF t2]] e(3) by (simp add: i)
  have p4: "sink_rows MissingTags (process_resource ?bad both_flags plain_encoder ''r'' ?st big_resource) = [headers]"
    using conjunct1 [OF conjunct2 [OF t3]] b by (simp add: i)
  have p5: "Log (ErrWrite MissingTags) \<in> set (trace (process_resource ?bad both_flags plain_encoder ''r'' ?st big_resource))"
    using mp [OF conjunct1 [OF conjunct2 [OF conjunct2 [OF conjunct2 [OF t3]]]] b] .
  from p1 p2 p3 p4 p5 show ?thesis
    by (intro conjI)
qed

text \<open>
  Claim C6 as it is written fails. The missing-tags sink is open, the one record of the
  page has no defined tags and a display name of 5000 bytes, the main file works and the
  missing-tags file takes nothing: the row does not fit into the buffer of the
  missing-tags sink after the header, so its write fails. The row is in the main sink
  and not in the missing-tags sink.
\<close>

theorem missing_tags_sink_counterexample:
  "SearchResources (file_fails MissingTags) 0 None = Some \<lparr>Items = [big_resource], OpcNextPage = None\<rparr> \<and>
   length (getStringValue (DisplayName big_resource)) = 5000 \<and>
   createMissingTagsFile both_flags \<and> missingDefinedTags (DefinedTags big_resource) \<and>
   ExecuteFullSearch 1 (file_fails MissingTags) both_flags plain_encoder ''r'' \<noteq> None \<and>
   sink_rows Resources (the (ExecuteFullSearch 1 (file_fails MissingTags) both_flags plain_encoder ''r'')) =
     [headers, [''r'', long_name, [], [], [], [], ''N/A'', ''N/A'', [], ''null'', []]] \<and>
   sink_rows MissingTags (the (ExecuteFullSearch 1 (file_fails MissingTags) both_flags plain_encoder ''r'')) =
     [headers] \<and>
   missingTagsCount (the (ExecuteFullSearch 1 (file_fails MissingTags) both_flags plain_encoder ''r'')) = 0"
  by (simp add: ExecuteFullSearch_def file_fails_def good_world_def both_flags_def create_files_def create_optional_def
     write_headers_def Write_def new_sink_def init_task_def defer_close_flush_def one_page_def
     process_resource_def write_missing_tags_def write_no_owner_def
     make_row_def formatTimeCreated_def DefinedTags_nil FreeformTagsToString_def big_resource_def bare_resource_def
     getStringValue_def long_name_length
     log_Printf_def return_def finish_def sink_rows_def Let_def
     missingDefinedTags_def missingOwner_def len_map_def)

subsection \<open>The set-up and the page loop\<close>

lemma ExecuteFullSearch_after_setup:
  assumes "setup_ok w fl"
  shows "ExecuteFullSearch fuel w fl lib section =
           page_loop fuel w fl lib section None (after_setup fl section (Format True (clock w 0)))"
proof -
  have "create_files w fl section ts (init_task\<lparr>ticks := 1\<rparr>) =
          Inr ((after_setup fl section ts)\<lparr>mainWriter := new_sink,
                 missingTagsWriter := (if createMissingTagsFile fl then Some new_sink else None),
                 noOwnerWriter := (if createNoOwnerFile fl then Some new_sink else None)\<rparr>)" for ts
    using assms
    by (cases "createMissingTagsFile fl"; cases "createNoOwnerFile fl")
       (simp_all add: setup_ok_def create_files_def create_optional_def init_task_def after_setup_def
          defer_close_flush_def Let_def)
  moreover have "write_headers w fl ((after_setup fl section ts)\<lparr>mainWriter := new_sink,
                 missingTagsWriter := (if createMissingTagsFile fl then Some new_sink else None),
                 noOwnerWriter := (if createNoOwnerFile fl then Some new_sink else None)\<rparr>) =
          Inr (after_setup fl section ts)" for ts
    using assms
    by (cases "createMissingTagsFile fl"; cases "createNoOwnerFile fl")
       (simp_all add: setup_ok_def write_headers_def Write_def new_sink_def header_sink_def after_setup_def Let_def)
  ultimately show ?thesis
    using assms by (simp add: ExecuteFullSearch_def setup_ok_def Let_def)
qed

lemma items_loop_main:
  "writes (mainWriter (items_loop w fl lib section st rs)) = writes (mainWriter st) + length rs"
  "calls (items_loop w fl lib section st rs) = calls st"
  "created (items_loop w fl lib section st rs) = created st"
  "defers (items_loop w fl lib section st rs) = defers st"
  by (induction rs arbitrary: st; simp add: process_resource_main)+

lemma items_loop_count:
  "totalResources (items_loop w fl lib section st rs) + of_nat (length (rows (mainWriter st))) =
     totalResources st + of_nat (length (rows (mainWriter (items_loop w fl lib section st rs))))"
proof (induction rs arbitrary: st)
  case Nil
  show ?case by simp
next
  case (Cons r rs)
  let ?p = "process_resource w fl lib section st r"
  have ih: "totalResources (items_loop w fl lib section ?p rs) + of_nat (length (rows (mainWriter ?p))) =
     totalResources ?p + of_nat (length (rows (mainWriter (items_loop w fl lib section ?p rs))))"
    by (rule Cons.IH)
  show ?case
  proof (cases "writeOk w Resources (writes (mainWriter st))")
    case True
    then have "length (rows (mainWriter ?p)) = Suc (length (rows (mainWriter st)))"
      and "totalResources ?p = totalResources st + 1"
      by (simp_all add: process_resource_main)
    with ih show ?thesis
      by (simp add: algebra_simps)
  next
    case False
    then have "length (rows (mainWriter ?p)) = length (rows (mainWriter st))"
      and "totalResources ?p = totalResources st"
      by (simp_all add: process_resource_main)
    with ih show ?thesis
      by simp
  qed
qed

lemma items_loop_rows_bounds:
  "length (rows (mainWriter st)) \<le> length (rows (mainWriter (items_loop w fl lib section st rs)))"
  "length (rows (mainWriter (items_loop w fl lib section st rs))) \<le> length (rows (mainWriter st)) + length rs"
proof (induction rs arbitrary: st)
  case Nil
  {
    case 1
    show ?case by simp
  next
    case 2
    show ?case by simp
  }
next
  case (Cons r rs)
  {
    case 1
    have "length (rows (mainWriter st)) \<le> length (rows (mainWriter (process_resource w fl lib section st r)))"
      by (simp add: process_resource_main)
    with Cons.IH(1) [of "process_resource w fl lib section st r"] show ?case
      by simp
  next
    case 2
    have "length (rows (mainWriter (process_resource w fl lib section st r))) \<le> Suc (length (rows (mainWriter st)))"
      by (simp add: process_resource_main)
    with Cons.IH(2) [of "process_resource w fl lib section st r"] show ?case
      by simp
  }
qed

lemma items_loop_all_written:
  "\<forall>i<length rs. writeOk w Resources (writes (mainWriter st) + i) \<Longrightarrow>
   length (rows (mainWriter (items_loop w fl lib section st rs))) = length (rows (mainWriter st)) + length rs"
proof (induction rs arbitrary: st)
  case Nil
  show ?case by simp
next
  case (Cons r rs)
  from Cons.prems have h: "writeOk w Resources (writes (mainWriter st))"
    by auto
  have "\<forall>i<length rs. writeOk w Resources (writes (mainWriter (process_resource w fl lib section st r)) + i)"
    using Cons.prems by (auto simp: process_resource_main)
  from Cons.IH [OF this] h show ?case
    by (simp add: process_resource_main)
qed

lemma finish_keeps:
  "calls (finish fl st) = calls st"
  "created (finish fl st) = created st"
  "totalResources (finish fl st) = totalResources st"
  "mainWriter (finish fl st) = mainWriter st"
  "missingTagsWriter (finish fl st) = missingTagsWriter st"
  "noOwnerWriter (finish fl st) = noOwnerWriter st"
  "Log (Processed (totalResources st)) \<in> set (trace (finish fl st))"
  by (simp_all add: finish_def return_def log_Printf_def Let_def)

lemma page_loop_last_page:
  assumes "SearchResources w (calls st) page = Some response" and "OpcNextPage response = None"
  shows "page_loop (Suc n) w fl lib section page st =
           Some (finish fl (items_loop w fl lib section
                   (st\<lparr>calls := Suc (calls st), trace := trace st @ [Request page]\<rparr>) (Items response)))"
  using assms by (simp add: Let_def)

lemma page_loop_next_page:
  assumes "SearchResources w (calls st) page = Some response" and "OpcNextPage response = Some c"
  shows "page_loop (Suc n) w fl lib section page st =
           page_loop n w fl lib section (Some c)
             ((items_loop w fl lib section
                 (st\<lparr>calls := Suc (calls st), trace := trace st @ [Request page]\<rparr>) (Items response))
              \<lparr>trace := trace (items_loop w fl lib section
                 (st\<lparr>calls := Suc (calls st), trace := trace st @ [Request page]\<rparr>) (Items response)) @ [Sleep 200]\<rparr>)"
  using assms by (simp add: Let_def)

lemma process_resource_trace:
  "\<exists>ext. trace (process_resource w fl lib section st r) = trace st @ ext"
proof (cases "writeOk w Resources (writes (mainWriter st))")
  case False
  then show ?thesis
    by (simp add: process_resource_main_fail log_Printf_def)
next
  case True
  let ?row = "make_row lib section (clock w (ticks st)) r"
  let ?st1 = "(if TimeCreated r = None then st else st\<lparr>ticks := Suc (ticks st)\<rparr>)\<lparr>mainWriter :=
                 (mainWriter st)\<lparr>rows := rows (mainWriter st) @ [?row], writes := Suc (writes (mainWriter st))\<rparr>\<rparr>"
  have p: "trace (process_resource w fl lib section st r) =
     trace (write_no_owner w fl r ?row (write_missing_tags w fl r ?row ?st1))"
    using True by (cases "TimeCreated r") (simp_all add: process_resource_def Write_def Let_def)
  obtain e1 where e1: "trace (write_missing_tags w fl r ?row ?st1) = trace ?st1 @ e1"
    using write_missing_tags_trace by blast
  obtain e2 where e2: "trace (write_no_owner w fl r ?row (write_missing_tags w fl r ?row ?st1)) =
      trace (write_missing_tags w fl r ?row ?st1) @ e2"
    using write_no_owner_trace by blast
  have "trace ?st1 = trace st"
    by simp
  with p e1 e2 show ?thesis
    by simp
qed

lemma items_loop_trace:
  "\<exists>ext. trace (items_loop w fl lib section st rs) = trace st @ ext"
proof (induction rs arbitrary: st)
  case Nil
  show ?case by simp
next
  case (Cons r rs)
  obtain e1 where "trace (process_resource w fl lib section st r) = trace st @ e1"
    using process_resource_trace by blast
  moreover obtain e2 where "trace (items_loop w fl lib section (process_resource w fl lib section st r) rs) =
      trace (process_resource w fl lib section st r) @ e2"
    using Cons.IH by blast
  ultimately show ?case
    by simp
qed

lemma finish_trace: "\<exists>ext. trace (finish fl st) = trace st @ ext"
  by (simp add: finish_def return_def log_Printf_def Let_def)

lemma page_loop_trace:
  "page_loop n w fl lib section page st = Some st' \<Longrightarrow> \<exists>rest. trace st' = trace st @ Request page # rest"
proof (induction n arbitrary: page st)
  case 0
  then show ?case by simp
next
  case (Suc n)
  let ?st1 = "st\<lparr>calls := Suc (calls st), trace := trace st @ [Request page]\<rparr>"
  show ?case
  proof (cases "SearchResources w (calls st) page")
    case None
    with Suc.prems have "st' = return (log_Printf ErrSearch ?st1)"
      by (simp add: Let_def)
    then show ?thesis
      by (simp add: return_def log_Printf_def)
  next
    case (Some response)
    let ?st2 = "items_loop w fl lib section ?st1 (Items response)"
    obtain e2 where e2: "trace ?st2 = trace ?st1 @ e2"
      using items_loop_trace by blast
    show ?thesis
    proof (cases "OpcNextPage response")
      case None
      with Some Suc.prems have "st' = finish fl ?st2"
        by (simp add: Let_def)
      moreover obtain e3 where "trace (finish fl ?st2) = trace ?st2 @ e3"
        using finish_trace by blast
      ultimately show ?thesis
        using e2 by simp
    next
      case c: (Some c)
      with Some Suc.prems have "page_loop n w fl lib section (Some c) (?st2\<lparr>trace := trace ?st2 @ [Sleep 200]\<rparr>) = Some st'"
        by (simp add: Let_def)
      from Suc.IH [OF this] obtain rest where "trace st' = trace (?st2\<lparr>trace := trace ?st2 @ [Sleep 200]\<rparr>) @ Request (Some c) # rest"
        by blast
      with e2 show ?thesis
        by simp
    qed
  qed
qed

lemma page_loop_second_request:
  assumes "SearchResources w (calls st) page = Some response" and "OpcNextPage response = Some c"
    and "st2 = items_loop w fl lib section (st\<lparr>calls := Suc (calls st), trace := trace st @ [Request page]\<rparr>) (Items response)"
    and "st4 = st2\<lparr>calls := Suc (Suc (calls st)), trace := trace st2 @ [Sleep 200, Request (Some c)]\<rparr>"
  shows "page_loop (Suc (Suc n)) w fl lib section page st =
           (case SearchResources w (Suc (calls st)) (Some c) of
              None \<Rightarrow> Some (return (log_Printf ErrSearch st4))
            | Some following \<Rightarrow>
                (case OpcNextPage following of
                   None \<Rightarrow> Some (finish fl (items_loop w fl lib section st4 (Items following)))
                 | Some c' \<Rightarrow>
                     page_loop n w fl lib section (Some c')
                       ((items_loop w fl lib section st4 (Items following))
                          \<lparr>trace := trace (items_loop w fl lib section st4 (Items following)) @ [Sleep 200]\<rparr>)))"
proof -
  let ?st3 = "st2\<lparr>trace := trace st2 @ [Sleep 200]\<rparr>"
  have c: "calls ?st3 = Suc (calls st)"
    by (simp add: assms(3) items_loop_main)
  have s4: "?st3\<lparr>calls := Suc (Suc (calls st)), trace := trace ?st3 @ [Request (Some c)]\<rparr> = st4"
    unfolding assms(4) by simp
  have "page_loop (Suc (Suc n)) w fl lib section page st = page_loop (Suc n) w fl lib section (Some c) ?st3"
    unfolding assms(3) by (rule page_loop_next_page [OF assms(1) assms(2)])
  also have "\<dots> =
     (case SearchResources w (calls ?st3) (Some c) of
        None \<Rightarrow> Some (return (log_Printf ErrSearch (?st3\<lparr>calls := Suc (calls ?st3), trace := trace ?st3 @ [Request (Some c)]\<rparr>)))
      | Some following \<Rightarrow>
          (case OpcNextPage following of
             None \<Rightarrow> Some (finish fl (items_loop w fl lib section
                        (?st3\<lparr>calls := Suc (calls ?st3), trace := trace ?st3 @ [Request (Some c)]\<rparr>) (Items following)))
           | Some c' \<Rightarrow>
               page_loop n w fl lib section (Some c')
                 ((items_loop w fl lib section
                     (?st3\<lparr>calls := Suc (calls ?st3), trace := trace ?st3 @ [Request (Some c)]\<rparr>) (Items following))
                    \<lparr>trace := trace (items_loop w fl lib section
                        (?st3\<lparr>calls := Suc (calls ?st3), trace := trace ?st3 @ [Request (Some c)]\<rparr>) (Items following)) @ [Sleep 200]\<rparr>)))"
    by (simp only: page_loop.simps Let_def)
  finally show ?thesis
    unfolding c s4 .
qed

lemma single_page_result:
  fixes w :: world and fl :: flags and lib :: json_encoder and sec :: string and response :: search_response
  assumes ok: "setup_ok w fl" and resp: "SearchResources w 0 None = Some response" and last: "OpcNextPage response = None"
  defines "st \<equiv> finish fl (items_loop w fl lib sec
                   ((after_setup fl sec (Format True (clock w 0)))\<lparr>calls := 1, trace := [Request None]\<rparr>) (Items response))"
  shows "ExecuteFullSearch (Suc n) w fl lib sec = Some st"
    and "calls st = 1"
    and "totalResources st = of_nat (length (sink_rows Resources st) - 1)"
    and "length (sink_rows Resources st) - 1 \<le> length (Items response)"
    and "(\<forall>i<length (Items response). writeOk w Resources (Suc i)) \<Longrightarrow> totalResources st = of_nat (length (Items response))"
    and "Log (Processed (totalResources st)) \<in> set (trace st)"
proof -
  let ?st0 = "after_setup fl sec (Format True (clock w 0))"
  let ?st1 = "?st0\<lparr>calls := 1, trace := [Request None]\<rparr>"
  let ?st2 = "items_loop w fl lib sec ?st1 (Items response)"
  have c0: "calls ?st0 = 0" and t0: "trace ?st0 = []"
    by (simp_all add: after_setup_def)
  have r1: "rows (mainWriter ?st1) = [headers]" and w1: "writes (mainWriter ?st1) = 1" and tot1: "totalResources ?st1 = 0"
    by (simp_all add: after_setup_def header_sink_def)
  show run: "ExecuteFullSearch (Suc n) w fl lib sec = Some st"
    unfolding ExecuteFullSearch_after_setup [OF ok] st_def
    using page_loop_last_page [of w ?st0 None response n fl lib sec] resp last c0 t0
    by simp
  show "calls st = 1"
    by (simp add: st_def finish_keeps items_loop_main)
  have cnt: "totalResources ?st2 + 1 = of_nat (length (rows (mainWriter ?st2)))"
    using items_loop_count [of w fl lib sec ?st1 "Items response"] r1 tot1 by simp
  have lo: "1 \<le> length (rows (mainWriter ?st2))"
    using items_loop_rows_bounds(1) [of ?st1 w fl lib sec "Items response"] r1 by simp
  have hi: "length (rows (mainWriter ?st2)) \<le> 1 + length (Items response)"
    using items_loop_rows_bounds(2) [of w fl lib sec ?st1 "Items response"] r1 by simp
  have sr: "sink_rows Resources st = rows (mainWriter ?st2)" and tot: "totalResources st = totalResources ?st2"
    by (simp_all add: st_def sink_rows_def finish_keeps)
  from lo obtain m where m: "length (rows (mainWriter ?st2)) = Suc m"
    by (cases "length (rows (mainWriter ?st2))") simp_all
  from cnt m have "totalResources ?st2 = of_nat m"
    by simp
  with m sr tot show total: "totalResources st = of_nat (length (sink_rows Resources st) - 1)"
    by simp
  from hi sr show "length (sink_rows Resources st) - 1 \<le> length (Items response)"
    by simp
  show "Log (Processed (totalResources st)) \<in> set (trace st)"
    unfolding st_def by (simp add: finish_keeps)
  assume "\<forall>i<length (Items response). writeOk w Resources (Suc i)"
  then have "\<forall>i<length (Items response). writeOk w Resources (writes (mainWriter ?st1) + i)"
    by (simp add: after_setup_def header_sink_def)
  from items_loop_all_written [OF this] r1 have "length (rows (mainWriter ?st2)) = Suc (length (Items response))"
    by simp
  with total sr show "totalResources st = of_nat (length (Items response))"
    by simp
qed

text \<open>
  Claim C7, as the code has it. When the set-up succeeds and the first response has no
  cursor, the task ends after that one request, whatever fuel it has, and logs its
  count; \<open>totalResources\<close> is the number of data rows of the main sink, that is the
  number of items of the page whose row the main sink accepted: at most the number of
  items, and exactly that number when no write to the main sink fails. When a response
  has a cursor, the loop does not end there: after the items of the page it sleeps 200 ms
  and goes round again with that cursor, and the next round sends the request with the
  cursor to the service (its next call) before anything else, whatever the service
  answers then; a run that ends has the sleep and that request next to each other in its
  trace.
\<close>

theorem single_page_scan:
  "(setup_ok w fl \<and> SearchResources w 0 None = Some response \<and> OpcNextPage response = None \<longrightarrow>
      (\<exists>st. ExecuteFullSearch (Suc n) w fl lib section = Some st \<and> calls st = 1 \<and>
            totalResources st = of_nat (length (sink_rows Resources st) - 1) \<and>
            length (sink_rows Resources st) - 1 \<le> length (Items response) \<and>
            ((\<forall>i<length (Items response). writeOk w Resources (Suc i)) \<longrightarrow>
               totalResources st = of_nat (length (Items response))) \<and>
            Log (Processed (totalResources st)) \<in> set (trace st))) \<and>
   (SearchResources w (calls st0) page = Some response \<and> OpcNextPage response = Some c \<longrightarrow>
      (\<exists>st2 st4.
         st2 = items_loop w fl lib section
                 (st0\<lparr>calls := Suc (calls st0), trace := trace st0 @ [Request page]\<rparr>) (Items response) \<and>
         st4 = st2\<lparr>calls := Suc (Suc (calls st0)), trace := trace st2 @ [Sleep 200, Request (Some c)]\<rparr> \<and>
         page_loop (Suc n) w fl lib section page st0 =
           page_loop n w fl lib section (Some c) (st2\<lparr>trace := trace st2 @ [Sleep 200]\<rparr>) \<and>
         page_loop (Suc (Suc n)) w fl lib section page st0 =
           (case SearchResources w (Suc (calls st0)) (Some c) of
              None \<Rightarrow> Some (return (log_Printf ErrSearch st4))
            | Some following \<Rightarrow>
                (case OpcNextPage following of
                   None \<Rightarrow> Some (finish fl (items_loop w fl lib section st4 (Items following)))
                 | Some c' \<Rightarrow>
                     page_loop n w fl lib section (Some c')
                       ((items_loop w fl lib section st4 (Items following))
                          \<lparr>trace := trace (items_loop w fl lib section st4 (Items following)) @ [Sleep 200]\<rparr>))) \<and>
         (\<forall>st'. page_loop (Suc n) w fl lib section page st0 = Some st' \<longrightarrow>
            (\<exists>rest. trace st' = trace st2 @ Sleep 200 # Request (Some c) # rest))))"
proof (intro conjI impI)
  assume a: "setup_ok w fl \<and> SearchResources w 0 None = Some response \<and> OpcNextPage response = None"
  then have ok: "setup_ok w fl" and resp: "SearchResources w 0 None = Some response" and last: "OpcNextPage response = None"
    by simp_all
  note r = single_page_result [OF ok resp last]
  show "\<exists>st. ExecuteFullSearch (Suc n) w fl lib section = Some st \<and> calls st = 1 \<and>
            totalResources st = of_nat (length (sink_rows Resources st) - 1) \<and>
            length (sink_rows Resources st) - 1 \<le> length (Items response) \<and>
            ((\<forall>i<length (Items response). writeOk w Resources (Suc i)) \<longrightarrow>
               totalResources st = of_nat (length (Items response))) \<and>
            Log (Processed (totalResources st)) \<in> set (trace st)"
    using r(1) [of n lib "section"] r(2) [of lib "section"] r(3) [of lib "section"] r(4) [of lib "section"]
      r(5) [of lib "section"] r(6) [of lib "section"]
    by blast
next
  assume a: "SearchResources w (calls st0) page = Some response \<and> OpcNextPage response = Some c"
  then have resp: "SearchResources w (calls st0) page = Some response" and cur: "OpcNextPage response = Some c"
    by simp_all
  let ?st2 = "items_loop w fl lib section
                 (st0\<lparr>calls := Suc (calls st0), trace := trace st0 @ [Request page]\<rparr>) (Items response)"
  let ?st4 = "?st2\<lparr>calls := Suc (Suc (calls st0)), trace := trace ?st2 @ [Sleep 200, Request (Some c)]\<rparr>"
  have A: "page_loop (Suc n) w fl lib section page st0 =
           page_loop n w fl lib section (Some c) (?st2\<lparr>trace := trace ?st2 @ [Sleep 200]\<rparr>)"
    by (rule page_loop_next_page [OF resp cur])
  have B: "page_loop (Suc (Suc n)) w fl lib section page st0 =
           (case SearchResources w (Suc (calls st0)) (Some c) of
              None \<Rightarrow> Some (return (log_Printf ErrSearch ?st4))
            | Some following \<Rightarrow>
                (case OpcNextPage following of
                   None \<Rightarrow> Some (finish fl (items_loop w fl lib section ?st4 (Items following)))
                 | Some c' \<Rightarrow>
                     page_loop n w fl lib section (Some c')
                       ((items_loop w fl lib section ?st4 (Items following))
                          \<lparr>trace := trace (items_loop w fl lib section ?st4 (Items following)) @ [Sleep 200]\<rparr>)))"
    by (rule page_loop_second_request [OF resp cur refl refl])
  have C: "\<forall>st'. page_loop (Suc n) w fl lib section page st0 = Some st' \<longrightarrow>
            (\<exists>rest. trace st' = trace ?st2 @ Sleep 200 # Request (Some c) # rest)"
  proof (intro allI impI)
    fix st'
    assume "page_loop (Suc n) w fl lib section page st0 = Some st'"
    then have "page_loop n w fl lib section (Some c) (?st2\<lparr>trace := trace ?st2 @ [Sleep 200]\<rparr>) = Some st'"
      unfolding A .
    from page_loop_trace [OF this] obtain rest
      where "trace st' = trace (?st2\<lparr>trace := trace ?st2 @ [Sleep 200]\<rparr>) @ Request (Some c) # rest"
      by blast
    then have "trace st' = trace ?st2 @ Sleep 200 # Request (Some c) # rest"
      by simp
    then show "\<exists>rest. trace st' = trace ?st2 @ Sleep 200 # Request (Some c) # rest"
      by blast
  qed
  from A B C show "\<exists>st2 st4.
         st2 = items_loop w fl lib section
                 (st0\<lparr>calls := Suc (calls st0), trace := trace st0 @ [Request page]\<rparr>) (Items response) \<and>
         st4 = st2\<lparr>calls := Suc (Suc (calls st0)), trace := trace st2 @ [Sleep 200, Request (Some c)]\<rparr> \<and>
         page_loop (Suc n) w fl lib section page st0 =
           page_loop n w fl lib section (Some c) (st2\<lparr>trace := trace st2 @ [Sleep 200]\<rparr>) \<and>
         page_loop (Suc (Suc n)) w fl lib section page st0 =
           (case SearchResources w (Suc (calls st0)) (Some c) of
              None \<Rightarrow> Some (return (log_Printf ErrSearch st4))
            | Some following \<Rightarrow>
                (case OpcNextPage following of
                   None \<Rightarrow> Some (finish fl (items_loop w fl lib section st4 (Items following)))
                 | Some c' \<Rightarrow>
                     page_loop n w fl lib section (Some c')
                       ((items_loop w fl lib section st4 (Items following))
                          \<lparr>trace := trace (items_loop w fl lib section st4 (Items following)) @ [Sleep 200]\<rparr>))) \<and>
         (\<forall>st'. page_loop (Suc n) w fl lib section page st0 = Some st' \<longrightarrow>
            (\<exists>rest. trace st' = trace st2 @ Sleep 200 # Request (Some c) # rest))"
    by (intro exI conjI) (rule refl, rule refl, assumption+)
qed

theorem single_page_scan_witness:
  "(\<exists>st. ExecuteFullSearch 1 good_world no_flags plain_encoder ''r'' = Some st \<and> calls st = 1 \<and>
         totalResources st = 1) \<and>
   (\<exists>st'. page_loop 2 (good_world\<lparr>SearchResources := two_pages\<rparr>) no_flags plain_encoder ''r'' None
             (after_setup no_flags ''r'' ''t'') = Some st' \<and>
          calls st' = 2 \<and>
          (\<exists>pre rest. trace st' = pre @ Sleep 200 # Request (Some ''p2'') # rest))"
proof -
  let ?resp = "\<lparr>Items = [bare_resource], OpcNextPage = None\<rparr>"
  have h1: "setup_ok good_world no_flags \<and> SearchResources good_world 0 None = Some ?resp \<and> OpcNextPage ?resp = None"
    by (simp add: setup_ok_def good_world_def no_flags_def one_page_def)
  have all: "\<forall>i<length (Items ?resp). writeOk good_world Resources (Suc i)"
    by (simp add: good_world_def)
  from mp [OF conjunct1 [OF single_page_scan [of good_world no_flags ?resp 0 plain_encoder "''r''"]] h1]
  obtain st where st: "ExecuteFullSearch 1 good_world no_flags plain_encoder ''r'' = Some st" "calls st = 1"
    and imp: "(\<forall>i<length (Items ?resp). writeOk good_world Resources (Suc i)) \<longrightarrow>
               totalResources st = of_nat (length (Items ?resp))"
    by auto
  from imp all have "totalResources st = 1"
    by simp
  with st have p1: "\<exists>st. ExecuteFullSearch 1 good_world no_flags plain_encoder ''r'' = Some st \<and> calls st = 1 \<and>
         totalResources st = 1"
    by blast
  let ?w = "good_world\<lparr>SearchResources := two_pages\<rparr>"
  let ?st0 = "after_setup no_flags ''r'' ''t''"
  let ?r1 = "\<lparr>Items = [bare_resource], OpcNextPage = Some ''p2''\<rparr>"
  have c0: "calls ?st0 = 0"
    by (simp add: after_setup_def)
  have h2: "SearchResources ?w (calls ?st0) None = Some ?r1 \<and> OpcNextPage ?r1 = Some ''p2''"
    by (simp add: two_pages_def)
  from mp [OF conjunct2 [OF single_page_scan [of ?w no_flags ?r1 1 plain_encoder "''r''" ?st0 None "''p2''"]] h2]
  obtain st2 st4 where s2: "st2 = items_loop ?w no_flags plain_encoder ''r''
                 (?st0\<lparr>calls := Suc (calls ?st0), trace := trace ?st0 @ [Request None]\<rparr>) (Items ?r1)"
    and C: "\<forall>st'. page_loop (Suc 1) ?w no_flags plain_encoder ''r'' None ?st0 = Some st' \<longrightarrow>
            (\<exists>rest. trace st' = trace st2 @ Sleep 200 # Request (Some ''p2'') # rest)"
    by blast
  from mp [OF conjunct2 [OF single_page_scan [of ?w no_flags ?r1 0 plain_encoder "''r''" ?st0 None "''p2''"]] h2]
  obtain t2 t4 where t4: "t4 = t2\<lparr>calls := Suc (Suc (calls ?st0)), trace := trace t2 @ [Sleep 200, Request (Some ''p2'')]\<rparr>"
    and B: "page_loop (Suc (Suc 0)) ?w no_flags plain_encoder ''r'' None ?st0 =
           (case SearchResources ?w (Suc (calls ?st0)) (Some ''p2'') of
              None \<Rightarrow> Some (return (log_Printf ErrSearch t4))
            | Some following \<Rightarrow>
                (case OpcNextPage following of
                   None \<Rightarrow> Some (finish no_flags (items_loop ?w no_flags plain_encoder ''r'' t4 (Items following)))
                 | Some c' \<Rightarrow>
                     page_loop 0 ?w no_flags plain_encoder ''r'' (Some c')
                       ((items_loop ?w no_flags plain_encoder ''r'' t4 (Items following))
                          \<lparr>trace := trace (items_loop ?w no_flags plain_encoder ''r'' t4 (Items following)) @ [Sleep 200]\<rparr>)))"
    by blast
  have two: "page_loop 2 ?w no_flags plain_encoder ''r'' None ?st0 = Some (finish no_flags t4)"
    using B by (simp add: numeral_2_eq_2 two_pages_def)
  have "calls (finish no_flags t4) = 2"
    by (simp add: finish_keeps t4 c0)
  moreover have "\<exists>rest. trace (finish no_flags t4) = trace st2 @ Sleep 200 # Request (Some ''p2'') # rest"
    using C two by (simp add: numeral_2_eq_2)
  ultimately have p2: "\<exists>st'. page_loop 2 ?w no_flags plain_encoder ''r'' None ?st0 = Some st' \<and> calls st' = 2 \<and>
          (\<exists>pre rest. trace st' = pre @ Sleep 200 # Request (Some ''p2'') # rest)"
    using two by blast
  from p1 p2 show ?thesis
    by (intro conjI)
qed

text \<open>
  Claim C7 as it is written fails. The first response has no cursor and one item, whose
  display name has 5000 bytes, and the main file takes nothing, so the write of the
  item's row to the main sink fails: the task ends after its one request with
  \<open>totalResources = 0\<close>, not with the number of items of the page.
\<close>

theorem single_page_scan_counterexample:
  "SearchResources (file_fails Resources) 0 None = Some \<lparr>Items = [big_resource], OpcNextPage = None\<rparr> \<and>
   length (getStringValue (DisplayName big_resource)) = 5000 \<and>
   ExecuteFullSearch 1 (file_fails Resources) no_flags plain_encoder ''r'' \<noteq> None \<and>
   calls (the (ExecuteFullSearch 1 (file_fails Resources) no_flags plain_encoder ''r'')) = 1 \<and>
   totalResources (the (ExecuteFullSearch 1 (file_fails Resources) no_flags plain_encoder ''r'')) = 0 \<and>
   length (Items \<lparr>Items = [big_resource], OpcNextPage = None\<rparr>) = 1"
  by (simp add: ExecuteFullSearch_def file_fails_def good_world_def no_flags_def create_files_def create_optional_def
     write_headers_def Write_def new_sink_def init_task_def defer_close_flush_def one_page_def
     process_resource_def big_resource_def bare_resource_def getStringValue_def long_name_length
     log_Printf_def return_def finish_def Let_def)

subsection \<open>Headers and rows\<close>



















lemma setup_failure:
  assumes "\<not> setup_ok w fl"
  shows "\<exists>st. ExecuteFullSearch fuel w fl lib section = Some st \<and> calls st = 0 \<and>
           (\<forall>k. sink_rows k st = [] \<or> sink_rows k st = [headers])"
proof -
  have k: "(\<forall>k. P k) \<longleftrightarrow> P Resources \<and> P MissingTags \<and> P NoOwner" for P
    by (metis sink_kind.exhaust)
  show ?thesis
    unfolding k using assms
    by (cases "createMissingTagsFile fl"; cases "createNoOwnerFile fl")
       (auto simp: setup_ok_def ExecuteFullSearch_def create_files_def create_optional_def write_headers_def
          Write_def new_sink_def init_task_def defer_close_flush_def return_def log_Printf_def
          sink_rows_def Let_def)
qed









lemma good_run_both_flags:
  "ExecuteFullSearch 1 good_world both_flags plain_encoder ''r'' \<noteq> None"
  by (simp add: ExecuteFullSearch_def good_world_def both_flags_def create_files_def create_optional_def
     write_headers_def Write_def new_sink_def init_task_def defer_close_flush_def one_page_def Let_def)



subsection \<open>The flags\<close>








lemma page_loop_created:
  "page_loop n w fl lib section page st = Some st' \<Longrightarrow> created st' = created st"
proof (induction n arbitrary: page st)
  case 0
  then show ?case by simp
next
  case (Suc n)
  let ?st1 = "st\<lparr>calls := Suc (calls st), trace := trace st @ [Request page]\<rparr>"
  show ?case
  proof (cases "SearchResources w (calls st) page")
    case None
    with Suc.prems have "st' = return (log_Printf ErrSearch ?st1)"
      by (simp add: Let_def)
    then show ?thesis
      by (simp add: return_def log_Printf_def)
  next
    case (Some response)
    let ?st2 = "items_loop w fl lib section ?st1 (Items response)"
    have c2: "created ?st2 = created st"
      by (simp add: items_loop_main)
    show ?thesis
    proof (cases "OpcNextPage response")
      case None
      with Some Suc.prems have "st' = finish fl ?st2"
        by (simp add: Let_def)
      with c2 show ?thesis
        by (simp add: finish_keeps)
    next
      case cur: (Some cu)
      with Some Suc.prems have "page_loop n w fl lib section (Some cu) (?st2\<lparr>trace := trace ?st2 @ [Sleep 200]\<rparr>) = Some st'"
        by (simp add: Let_def)
      from Suc.IH [OF this] c2 show ?thesis
        by simp
    qed
  qed
qed






subsection \<open>The time stamp of the file names\<close>

lemma Format_before_midnight: "Format True 1704067199999999999 = ''20231231_235959''"
  by code_simp

lemma Format_midnight: "Format True 1704067200000000000 = ''20240101_000000''"
  by code_simp

lemma Format_second: "t div 1000000000 = t' div 1000000000 \<Longrightarrow> Format short t = Format short t'"
  by (simp add: Format_def)

lemma created_paths:
  assumes "ExecuteFullSearch fuel w fl lib section = Some st"
  shows "\<forall>p\<in>set (created st). \<exists>k. p = file_path section k (Format True (clock w 0))"
proof (cases "setup_ok w fl")
  case True
  let ?st0 = "after_setup fl section (Format True (clock w 0))"
  from assms have pl: "page_loop fuel w fl lib section None ?st0 = Some st"
    by (simp add: ExecuteFullSearch_after_setup [OF True])
  from page_loop_created [OF pl] have "created st = created ?st0" .
  then show ?thesis
    by (auto simp: after_setup_def)
next
  case False
  then show ?thesis
    using assms
    by (cases "createMissingTagsFile fl"; cases "createNoOwnerFile fl")
       (auto simp: setup_ok_def ExecuteFullSearch_def create_files_def create_optional_def write_headers_def
          Write_def new_sink_def init_task_def defer_close_flush_def return_def log_Printf_def
          Let_def split: if_splits)
qed

lemma run_main_member:
  "(name, res) \<in> set (run_main fuel worlds fl lib sections) \<longleftrightarrow>
     name \<in> set sections \<and> name \<noteq> ''DEFAULT'' \<and> res = ExecuteFullSearch fuel (worlds name) fl lib name"
  by (auto simp: run_main_def)

text \<open>
  Claim C2, as the code has it. Every file that a task makes carries in its name the
  time stamp of that task: the first reading that the task takes of the clock, formatted
  to the second. The files are made in the set-up and the loops make none. Each task of
  a run reads the clock for itself, so two tasks of a run have the same time stamp in
  the names of their files when their first readings fall into the same second.
\<close>

theorem task_files_share_timestamp:
  "(ExecuteFullSearch fuel w fl lib section = Some st \<longrightarrow>
      (\<forall>p\<in>set (created st). \<exists>k. p = file_path section k (Format True (clock w 0)))) \<and>
   (setup_ok w fl \<longrightarrow>
      ExecuteFullSearch fuel w fl lib section =
        page_loop fuel w fl lib section None (after_setup fl section (Format True (clock w 0))) \<and>
      created (after_setup fl section (Format True (clock w 0))) =
        [file_path section Resources (Format True (clock w 0))] @
        (if createMissingTagsFile fl then [file_path section MissingTags (Format True (clock w 0))] else []) @
        (if createNoOwnerFile fl then [file_path section NoOwner (Format True (clock w 0))] else []) \<and>
      created (process_resource w fl lib section st0 r) = created st0 \<and>
      created (items_loop w fl lib section st0 rs) = created st0) \<and>
   (\<not> setup_ok w fl \<longrightarrow> (\<exists>st. ExecuteFullSearch fuel w fl lib section = Some st)) \<and>
   ((a, Some sta) \<in> set (run_main fuel worlds fl lib sections) \<and>
    (b, Some stb) \<in> set (run_main fuel worlds fl lib sections) \<and>
    clock (worlds a) 0 div 1000000000 = clock (worlds b) 0 div 1000000000 \<longrightarrow>
      (\<forall>p\<in>set (created sta). \<exists>k. p = file_path a k (Format True (clock (worlds a) 0))) \<and>
      (\<forall>q\<in>set (created stb). \<exists>k. q = file_path b k (Format True (clock (worlds a) 0))))"
proof (intro conjI impI)
  assume "ExecuteFullSearch fuel w fl lib section = Some st"
  then show "\<forall>p\<in>set (created st). \<exists>k. p = file_path section k (Format True (clock w 0))"
    by (rule created_paths)
next
  assume ok: "setup_ok w fl"
  show "ExecuteFullSearch fuel w fl lib section =
        page_loop fuel w fl lib section None (after_setup fl section (Format True (clock w 0)))"
    by (rule ExecuteFullSearch_after_setup [OF ok])
next
  show "created (after_setup fl section (Format True (clock w 0))) =
        [file_path section Resources (Format True (clock w 0))] @
        (if createMissingTagsFile fl then [file_path section MissingTags (Format True (clock w 0))] else []) @
        (if createNoOwnerFile fl then [file_path section NoOwner (Format True (clock w 0))] else [])"
    by (simp add: after_setup_def)
  show "created (process_resource w fl lib section st0 r) = created st0"
    by (rule process_resource_main(3))
  show "created (items_loop w fl lib section st0 rs) = created st0"
    by (rule items_loop_main(3))
next
  assume "\<not> setup_ok w fl"
  from setup_failure [OF this, of fuel lib "section"] show "\<exists>st. ExecuteFullSearch fuel w fl lib section = Some st"
    by blast
next
  assume h: "(a, Some sta) \<in> set (run_main fuel worlds fl lib sections) \<and>
    (b, Some stb) \<in> set (run_main fuel worlds fl lib sections) \<and>
    clock (worlds a) 0 div 1000000000 = clock (worlds b) 0 div 1000000000"
  then have ra: "ExecuteFullSearch fuel (worlds a) fl lib a = Some sta"
    and rb: "ExecuteFullSearch fuel (worlds b) fl lib b = Some stb"
    by (simp_all add: run_main_member)
  from h have "clock (worlds a) 0 div 1000000000 = clock (worlds b) 0 div 1000000000"
    by simp
  then have "Format True (clock (worlds a) 0) = Format True (clock (worlds b) 0)"
    by (rule Format_second)
  with created_paths [OF ra] created_paths [OF rb]
  show "\<forall>p\<in>set (created sta). \<exists>k. p = file_path a k (Format True (clock (worlds a) 0))"
    and "\<forall>q\<in>set (created stb). \<exists>k. q = file_path b k (Format True (clock (worlds a) 0))"
    by simp_all
qed

theorem task_files_share_timestamp_witness:
  "\<exists>k. hd (created (the (ExecuteFullSearch 1 good_world both_flags plain_encoder ''r''))) =
          file_path ''r'' k (Format True 0)"
proof -
  let ?st = "the (ExecuteFullSearch 1 good_world both_flags plain_encoder ''r'')"
  have run: "ExecuteFullSearch 1 good_world both_flags plain_encoder ''r'' = Some ?st"
    using good_run_both_flags by simp
  have ok: "setup_ok good_world both_flags"
    by (simp add: setup_ok_def good_world_def)
  have pl: "page_loop 1 good_world both_flags plain_encoder ''r'' None
              (after_setup both_flags ''r'' (Format True (clock good_world 0))) = Some ?st"
    using run unfolding ExecuteFullSearch_after_setup [OF ok] .
  have "created ?st = created (after_setup both_flags ''r'' (Format True (clock good_world 0)))"
    by (rule page_loop_created [OF pl])
  then have ne: "hd (created ?st) \<in> set (created ?st)"
    by (simp add: after_setup_def)
  note t = mp [OF conjunct1 [OF task_files_share_timestamp [of 1 good_world both_flags plain_encoder "''r''" ?st]] run]
  from bspec [OF t ne] show ?thesis
    by (simp add: good_world_def)
qed

text \<open>
  Claim C2 as it is written fails. A run with two regions: the task of \<open>a\<close> reads the
  clock a nanosecond before midnight, that of \<open>b\<close> at midnight. The names of their files
  carry different time stamps.
\<close>

theorem task_files_share_timestamp_counterexample:
  "map (\<lambda>(name, res). (name, map_option created res))
     (run_main 1 midnight_worlds no_flags plain_encoder [''DEFAULT'', ''a'', ''b'']) =
     [(''a'', Some [''data/a_resources_20231231_235959.csv'']),
      (''b'', Some [''data/b_resources_20240101_000000.csv''])]"
  by (simp add: run_main_def midnight_worlds_def ExecuteFullSearch_def good_world_def no_flags_def
     create_files_def create_optional_def
     write_headers_def Write_def new_sink_def init_task_def defer_close_flush_def one_page_def
     process_resource_def write_missing_tags_keeps write_no_owner_keeps bare_resource_def
     log_Printf_def return_def finish_def Let_def
     Format_before_midnight Format_midnight file_path_def file_kind_def)

end
